theory Spec2Isabelle
  imports Main "HOL-Library.Word" "HOL-Library.AList"
begin

unbundle bit_operations_syntax

section \<open>Values of the Python program\<close>

text \<open>
  The development is a shallow embedding of \<^verbatim>\<open>datastore.py\<close>. A Python \<^verbatim>\<open>bytes\<close> object is a
  list of 8-bit words; a Python \<^verbatim>\<open>str\<close> is a list of Unicode code points (natural numbers),
  since \<^verbatim>\<open>len\<close>, indexing and comparison of \<^verbatim>\<open>str\<close> work on code points. The literals of
  the source are written with \<open>str\<close> and \<open>bstr\<close>.
\<close>

type_synonym byte = "8 word"
type_synonym bytes = "byte list"
type_synonym pystr = "nat list"

definition str :: "string \<Rightarrow> pystr" where
  "str s = map of_char s"

definition bstr :: "string \<Rightarrow> bytes" where
  "bstr s = map of_char s"

text \<open>A path is the list of its components below the file-system root.\<close>

type_synonym path = "pystr list"

text \<open>
  Every exception the modelled code can raise is a value. \<open>Exception\<close> carries the message
  of a plain \<^verbatim>\<open>raise Exception(msg)\<close>; the \<^verbatim>\<open>OSError\<close> subclasses carry the file name they
  are raised with.
\<close>

datatype pyerr =
    FileNotFoundError path
  | FileExistsError path
  | IsADirectoryError path
  | NotADirectoryError path
  | Exception pystr
  | KeyError pystr
  | IndexError
  | AttributeError
  | UnicodeDecodeError
  | UnicodeEncodeError
  | ExpatError
  | PlistError

section \<open>UTF-8\<close>

text \<open>
  \<^verbatim>\<open>bytes.decode('utf-8')\<close> and \<^verbatim>\<open>str.encode('utf-8')\<close> in their default strict mode: the
  decoder rejects stray continuation bytes, truncated and overlong sequences, surrogates and
  values above U+10FFFF (\<^verbatim>\<open>UnicodeDecodeError\<close>, here \<open>None\<close>); the encoder rejects
  surrogates (\<^verbatim>\<open>UnicodeEncodeError\<close>, here \<open>None\<close>).
\<close>

definition is_cont :: "byte \<Rightarrow> bool" where
  "is_cont b = (128 \<le> unat b \<and> unat b < 192)"

definition cont :: "byte \<Rightarrow> nat" where
  "cont b = unat b - 128"

definition scalar_ok :: "nat \<Rightarrow> nat \<Rightarrow> bool" where
  "scalar_ok lo cp = (lo \<le> cp \<and> cp < 1114112 \<and> \<not> (55296 \<le> cp \<and> cp < 57344))"

fun utf8_decode :: "bytes \<Rightarrow> pystr option" where
  "utf8_decode [] = Some []"
| "utf8_decode (b0 # bs) =
     (let n = unat b0 in
      if n < 128 then map_option ((#) n) (utf8_decode bs)
      else if 192 \<le> n \<and> n < 224 then
        (case bs of
           b1 # r \<Rightarrow>
             (let cp = (n - 192) * 64 + cont b1 in
              if is_cont b1 \<and> scalar_ok 128 cp
              then map_option ((#) cp) (utf8_decode r) else None)
         | _ \<Rightarrow> None)
      else if 224 \<le> n \<and> n < 240 then
        (case bs of
           b1 # b2 # r \<Rightarrow>
             (let cp = (n - 224) * 4096 + cont b1 * 64 + cont b2 in
              if is_cont b1 \<and> is_cont b2 \<and> scalar_ok 2048 cp
              then map_option ((#) cp) (utf8_decode r) else None)
         | _ \<Rightarrow> None)
      else if 240 \<le> n \<and> n < 248 then
        (case bs of
           b1 # b2 # b3 # r \<Rightarrow>
             (let cp = (n - 240) * 262144 + cont b1 * 4096 + cont b2 * 64 + cont b3 in
              if is_cont b1 \<and> is_cont b2 \<and> is_cont b3 \<and> scalar_ok 65536 cp
              then map_option ((#) cp) (utf8_decode r) else None)
         | _ \<Rightarrow> None)
      else None)"

definition utf8_char :: "nat \<Rightarrow> bytes option" where
  "utf8_char cp =
     (if cp < 128 then Some [of_nat cp]
      else if cp < 2048 then Some [of_nat (192 + cp div 64), of_nat (128 + cp mod 64)]
      else if 55296 \<le> cp \<and> cp < 57344 then None
      else if cp < 65536 then
        Some [of_nat (224 + cp div 4096), of_nat (128 + cp div 64 mod 64),
              of_nat (128 + cp mod 64)]
      else if cp < 1114112 then
        Some [of_nat (240 + cp div 262144), of_nat (128 + cp div 4096 mod 64),
              of_nat (128 + cp div 64 mod 64), of_nat (128 + cp mod 64)]
      else None)"

fun utf8_encode :: "pystr \<Rightarrow> bytes option" where
  "utf8_encode [] = Some []"
| "utf8_encode (c # cs) =
     (case utf8_char c of
        None \<Rightarrow> None
      | Some bs \<Rightarrow> map_option ((@) bs) (utf8_encode cs))"

section \<open>The composite-record decoder\<close>

text \<open>
  \<^verbatim>\<open>read_int\<close> is \<^verbatim>\<open>int.from_bytes(four_bytes, byteorder='little')\<close>. It accepts a byte
  string of any length, the empty one included (value 0).
\<close>

fun read_int :: "bytes \<Rightarrow> nat" where
  "read_int [] = 0"
| "read_int (b # bs) = unat b + 256 * read_int bs"

text \<open>
  A stream (\<^verbatim>\<open>BytesIO\<close> or an open file) is the list of the bytes not yet consumed.
  \<^verbatim>\<open>data.read(n)\<close> returns \<open>take n s\<close>, which is shorter than \<open>n\<close> at the end of the
  stream, and leaves \<open>drop n s\<close>.

  The value \<^verbatim>\<open>read_rtf_item\<close> returns is a byte string, a \<^verbatim>\<open>dict\<close> from names to such
  values, or \<^verbatim>\<open>None\<close>. A \<^verbatim>\<open>dict\<close> keeps its keys in insertion order; assigning to a key
  that is present replaces the value in place, which is \<open>AList.update\<close>.
\<close>

datatype rtf_item =
    RBytes bytes
  | RDict "(pystr \<times> rtf_item) list"
  | RNone

text \<open>
  The first loop of the directory branch: \<open>n\<close> times, read a length and a name, append the
  name to \<^verbatim>\<open>item_names\<close> and bind it to \<^verbatim>\<open>None\<close> in \<^verbatim>\<open>directory_map\<close>.
\<close>

fun read_names ::
  "nat \<Rightarrow> bytes \<Rightarrow> pystr list \<Rightarrow> (pystr \<times> rtf_item) list
     \<Rightarrow> pyerr + (pystr list \<times> (pystr \<times> rtf_item) list \<times> bytes)" where
  "read_names 0 s item_names directory_map = Inr (item_names, directory_map, s)"
| "read_names (Suc n) s item_names directory_map =
     (let attr_len = read_int (take 4 s); s1 = drop 4 s in
      case utf8_decode (take attr_len s1) of
        None \<Rightarrow> Inl UnicodeDecodeError
      | Some attr_name \<Rightarrow>
          read_names n (drop attr_len s1) (item_names @ [attr_name])
            (AList.update attr_name RNone directory_map))"

text \<open>\<^verbatim>\<open>item_sizes = [read_int(data.read(4)) for _ in range(n_items)]\<close>\<close>

fun read_sizes :: "nat \<Rightarrow> bytes \<Rightarrow> nat list \<times> bytes" where
  "read_sizes 0 s = ([], s)"
| "read_sizes (Suc n) s =
     (let (item_sizes, s') = read_sizes n (drop 4 s) in (read_int (take 4 s) # item_sizes, s'))"

text \<open>\<^verbatim>\<open>item_data = [data.read(size) for size in item_sizes]\<close>\<close>

fun read_data :: "nat list \<Rightarrow> bytes \<Rightarrow> bytes list" where
  "read_data [] s = []"
| "read_data (sz # item_sizes) s = take sz s # read_data item_sizes (drop sz s)"

text \<open>
  Everything the directory branch reads from the stream before it recurses: the count, the
  names, the sizes and the raw bytes of each entry.
\<close>

definition read_directory ::
  "bytes \<Rightarrow> pyerr + (pystr list \<times> (pystr \<times> rtf_item) list \<times> bytes list)" where
  "read_directory s =
     (let n_items = read_int (take 4 s) in
      case read_names n_items (drop 4 s) [] [] of
        Inl e \<Rightarrow> Inl e
      | Inr (item_names, directory_map, s1) \<Rightarrow>
          (let (item_sizes, s2) = read_sizes n_items s1 in
           Inr (item_names, directory_map, read_data item_sizes s2)))"

text \<open>
  The last loop: \<^verbatim>\<open>directory_map[item_names[i]] = read_rtf_item(BytesIO(item))\<close> for each
  entry in order; an exception of a recursive call ends the loop.
\<close>

fun assign_items ::
  "(pystr \<times> rtf_item) list \<Rightarrow> (pystr \<times> (pyerr + rtf_item)) list
     \<Rightarrow> pyerr + (pystr \<times> rtf_item) list" where
  "assign_items directory_map [] = Inr directory_map"
| "assign_items directory_map ((name, Inl e) # rest) = Inl e"
| "assign_items directory_map ((name, Inr v) # rest) =
     assign_items (AList.update name v directory_map) rest"

lemma read_names_length:
  "read_names n s ns dm = Inr (ns', dm', s') \<Longrightarrow> length s' \<le> length s"
proof (induction n arbitrary: s ns dm)
  case 0
  then show ?case by simp
next
  case (Suc n)
  then show ?case
    by (fastforce simp: Let_def split: option.splits)
qed

lemma read_sizes_length: "read_sizes n s = (zs, s') \<Longrightarrow> length s' \<le> length s"
proof (induction n arbitrary: s zs)
  case 0
  then show ?case by simp
next
  case (Suc n)
  then show ?case
    by (fastforce simp: Let_def split: prod.splits)
qed

lemma read_data_length: "x \<in> set (read_data zs s) \<Longrightarrow> length x \<le> length s"
proof (induction zs arbitrary: s)
  case Nil
  then show ?case by simp
next
  case (Cons z zs)
  then show ?case by fastforce
qed

lemma read_directory_length:
  assumes "read_directory s = Inr (ns, dm, items)" and "x \<in> set items"
  shows "length x \<le> length s - 4"
proof -
  from assms(1) obtain s1 zs s2 where
    n: "read_names (read_int (take 4 s)) (drop 4 s) [] [] = Inr (ns, dm, s1)" and
    z: "read_sizes (read_int (take 4 s)) s1 = (zs, s2)" and
    i: "items = read_data zs s2"
    by (auto simp: read_directory_def Let_def split: sum.splits prod.splits)
  have "length x \<le> length s2"
    using assms(2) i read_data_length by blast
  also have "\<dots> \<le> length s1"
    using z by (rule read_sizes_length)
  also have "\<dots> \<le> length (drop 4 s)"
    using n by (rule read_names_length)
  finally show ?thesis by simp
qed

lemma read_int_nonzero: "read_int bs \<noteq> 0 \<Longrightarrow> bs \<noteq> []"
  by auto

function read_rtf_item :: "bytes \<Rightarrow> pyerr + rtf_item" where
  "read_rtf_item data =
     (let item_type = read_int (take 4 data); s = drop 4 data in
      if item_type = 1 then
        (let item_size = read_int (take 4 s); s = drop 4 s in
         if item_size = 2147483648 then
           (let padding_size = read_int (take 4 s); s = drop 4 s;
                real_size = read_int (take 4 s); s = drop 4 s;
                s = drop padding_size s
            in Inr (RBytes (take real_size s)))
         else Inr (RBytes (take item_size s)))
      else if item_type = 3 then
        (case read_directory s of
           Inl e \<Rightarrow> Inl e
         | Inr (item_names, directory_map, item_data) \<Rightarrow>
             (case assign_items directory_map
                     (zip item_names (map read_rtf_item item_data)) of
                Inl e \<Rightarrow> Inl e
              | Inr d \<Rightarrow> Inr (RDict d)))
      else Inr RNone)"
  by pat_completeness auto
termination
proof (relation "measure length")
  show "wf (measure length)" by simp
next
  fix data :: bytes and item_type s x2 item_names y directory_map item_data z
  assume t: "item_type = read_int (take 4 data)" "item_type = 3"
    and s: "s = drop 4 data"
    and d: "read_directory s = Inr x2" "(item_names, y) = x2" "(directory_map, item_data) = y"
    and z: "z \<in> set item_data"
  from t have "data \<noteq> []" by auto
  moreover have "length z \<le> length s - 4"
    using d z read_directory_length [of s item_names directory_map item_data z] by auto
  ultimately show "(z, data) \<in> measure length"
    using s by (cases data) auto
qed

declare read_rtf_item.simps [simp del]

section \<open>SHA-1\<close>

text \<open>
  \<^verbatim>\<open>hashlib.sha1\<close> (FIPS 180-4): the message is padded to a multiple of 64 bytes and
  consumed in blocks of sixteen big-endian 32-bit words; \<^verbatim>\<open>hexdigest\<close> prints the five
  state words as forty lowercase hexadecimal digits.
\<close>

type_synonym u32 = "32 word"
type_synonym sha1_state = "u32 \<times> u32 \<times> u32 \<times> u32 \<times> u32"

definition be_word :: "bytes \<Rightarrow> u32" where
  "be_word bs = foldl (\<lambda>acc b. push_bit 8 acc OR ucast b) 0 bs"

definition sha1_pad :: "bytes \<Rightarrow> bytes" where
  "sha1_pad m =
     m @ [128] @ replicate ((119 - length m mod 64) mod 64) 0
       @ map (\<lambda>i. of_nat (8 * length m div 2 ^ (8 * (7 - i)))) [0..<8]"

fun sha1_words :: "nat \<Rightarrow> bytes \<Rightarrow> u32 list" where
  "sha1_words 0 bs = []"
| "sha1_words (Suc n) bs = be_word (take 4 bs) # sha1_words n (drop 4 bs)"

fun sha1_schedule :: "nat \<Rightarrow> u32 list \<Rightarrow> u32 list" where
  "sha1_schedule 0 w = w"
| "sha1_schedule (Suc n) w =
     (let t = length w in
      sha1_schedule n
        (w @ [word_rotl 1 (w ! (t - 3) XOR w ! (t - 8) XOR w ! (t - 14) XOR w ! (t - 16))]))"

definition sha1_round :: "u32 list \<Rightarrow> sha1_state \<Rightarrow> nat \<Rightarrow> sha1_state" where
  "sha1_round w st t =
     (case st of (a, b, c, d, e) \<Rightarrow>
        (let (f, k) =
               (if t < 20 then ((b AND c) OR (NOT b AND d), 0x5A827999)
                else if t < 40 then (b XOR c XOR d, 0x6ED9EBA1)
                else if t < 60 then ((b AND c) OR (b AND d) OR (c AND d), 0x8F1BBCDC)
                else (b XOR c XOR d, 0xCA62C1D6));
             temp = word_rotl 5 a + f + e + k + w ! t
         in (temp, a, word_rotl 30 b, c, d)))"

definition sha1_block :: "sha1_state \<Rightarrow> bytes \<Rightarrow> sha1_state" where
  "sha1_block h block =
     (let w = sha1_schedule 64 (sha1_words 16 block) in
      case (h, foldl (sha1_round w) h [0..<80]) of
        ((h0, h1, h2, h3, h4), (a, b, c, d, e)) \<Rightarrow>
          (h0 + a, h1 + b, h2 + c, h3 + d, h4 + e))"

fun sha1_blocks :: "nat \<Rightarrow> sha1_state \<Rightarrow> bytes \<Rightarrow> sha1_state" where
  "sha1_blocks 0 h bs = h"
| "sha1_blocks (Suc n) h bs = sha1_blocks n (sha1_block h (take 64 bs)) (drop 64 bs)"

definition hex_digit :: "nat \<Rightarrow> nat" where
  "hex_digit d = (if d < 10 then 48 + d else 87 + d)"

definition hex_word :: "u32 \<Rightarrow> pystr" where
  "hex_word w = map (\<lambda>i. hex_digit (unat w div 16 ^ (7 - i) mod 16)) [0..<8]"

definition sha1_hexdigest :: "bytes \<Rightarrow> pystr" where
  "sha1_hexdigest m =
     (let p = sha1_pad m in
      case sha1_blocks (length p div 64)
             (0x67452301, 0xEFCDAB89, 0x98BADCFE, 0x10325476, 0xC3D2E1F0) p of
        (h0, h1, h2, h3, h4) \<Rightarrow> concat (map hex_word [h0, h1, h2, h3, h4]))"

text \<open>
  Exceptions propagate through \<open>bind_err\<close>: the first failing step ends the computation.
\<close>

definition bind_err :: "pyerr + 'a \<Rightarrow> ('a \<Rightarrow> pyerr + 'b) \<Rightarrow> pyerr + 'b" where
  "bind_err r f = (case r of Inl e \<Rightarrow> Inl e | Inr x \<Rightarrow> f x)"

text \<open>\<^verbatim>\<open>sha1_hash(s)\<close>: the digest of \<^verbatim>\<open>s.encode('utf-8')\<close>.\<close>

definition sha1_hash :: "pystr \<Rightarrow> pyerr + pystr" where
  "sha1_hash s =
     (case utf8_encode s of
        None \<Rightarrow> Inl UnicodeEncodeError
      | Some b \<Rightarrow> Inr (sha1_hexdigest b))"

section \<open>The file system\<close>

text \<open>
  The file system is the list of its entries, each a path with a node; the root \<open>[]\<close> is
  always a directory. The order of the list is the order in which \<^verbatim>\<open>os.listdir\<close> reports
  the entries, which Python leaves unspecified. A failing operation returns the \<^verbatim>\<open>OSError\<close>
  that Python raises.
\<close>

datatype node = File bytes | Dir

type_synonym filesystem = "(path \<times> node) list"

definition lookup :: "filesystem \<Rightarrow> path \<Rightarrow> node option" where
  "lookup fs p = (if p = [] then Some Dir else map_of fs p)"

text \<open>\<^verbatim>\<open>Path.exists()\<close> and \<^verbatim>\<open>Path.is_dir()\<close> / \<^verbatim>\<open>os.path.isdir\<close>\<close>

definition path_exists :: "filesystem \<Rightarrow> path \<Rightarrow> bool" where
  "path_exists fs p = (lookup fs p \<noteq> None)"

definition is_dir :: "filesystem \<Rightarrow> path \<Rightarrow> bool" where
  "is_dir fs p = (lookup fs p = Some Dir)"

text \<open>\<^verbatim>\<open>open(p, 'rb').read()\<close>\<close>

definition read_bytes :: "filesystem \<Rightarrow> path \<Rightarrow> pyerr + bytes" where
  "read_bytes fs p =
     (case lookup fs p of
        None \<Rightarrow> Inl (FileNotFoundError p)
      | Some Dir \<Rightarrow> Inl (IsADirectoryError p)
      | Some (File b) \<Rightarrow> Inr b)"

text \<open>
  \<^verbatim>\<open>open(p, 'wb')\<close> creates or truncates the file; writing and closing then leaves the data.
\<close>

definition open_wb :: "filesystem \<Rightarrow> path \<Rightarrow> pyerr + filesystem" where
  "open_wb fs p =
     (if is_dir fs p then Inl (IsADirectoryError p)
      else case lookup fs (butlast p) of
        None \<Rightarrow> Inl (FileNotFoundError p)
      | Some (File b) \<Rightarrow> Inl (NotADirectoryError p)
      | Some Dir \<Rightarrow> Inr (AList.update p (File []) fs))"

definition write_bytes :: "filesystem \<Rightarrow> path \<Rightarrow> bytes \<Rightarrow> filesystem" where
  "write_bytes fs p b = AList.update p (File b) fs"

definition os_listdir :: "filesystem \<Rightarrow> path \<Rightarrow> pyerr + pystr list" where
  "os_listdir fs p =
     (case lookup fs p of
        None \<Rightarrow> Inl (FileNotFoundError p)
      | Some (File b) \<Rightarrow> Inl (NotADirectoryError p)
      | Some Dir \<Rightarrow> Inr (map last (filter (\<lambda>q. q \<noteq> [] \<and> butlast q = p) (map fst fs))))"

definition os_mkdir :: "filesystem \<Rightarrow> path \<Rightarrow> pyerr + filesystem" where
  "os_mkdir fs p =
     (if path_exists fs p then Inl (FileExistsError p)
      else case lookup fs (butlast p) of
        None \<Rightarrow> Inl (FileNotFoundError p)
      | Some (File b) \<Rightarrow> Inl (NotADirectoryError p)
      | Some Dir \<Rightarrow> Inr (AList.update p Dir fs))"

text \<open>
  \<^verbatim>\<open>os.makedirs(p, exist_ok=True)\<close>: create the missing ancestors first, then the directory
  itself; a failing \<^verbatim>\<open>mkdir\<close> is forgiven when the path is a directory already.
\<close>

function os_makedirs :: "filesystem \<Rightarrow> path \<Rightarrow> pyerr + filesystem" where
  "os_makedirs fs p =
     bind_err
       (if p \<noteq> [] \<and> butlast p \<noteq> [] \<and> \<not> path_exists fs (butlast p)
        then os_makedirs fs (butlast p) else Inr fs)
       (\<lambda>fs1. case os_mkdir fs1 p of
                Inl e \<Rightarrow> if is_dir fs1 p then Inr fs1 else Inl e
              | Inr fs2 \<Rightarrow> Inr fs2)"
  by pat_completeness auto
termination
  by (relation "measure (\<lambda>(fs, p). length p)") auto

declare os_makedirs.simps [simp del]

section \<open>Property lists and library functions\<close>

text \<open>
  A property list is a \<^verbatim>\<open>dict\<close> with string keys; the values the store reads and writes are
  booleans, integers and strings.
\<close>

datatype pval = PBool bool | PInt int | PStr pystr

type_synonym plist = "(pystr \<times> pval) list"

text \<open>
  \<^verbatim>\<open>plistlib\<close> and \<^verbatim>\<open>str.lower\<close> belong to the Python library, not to the repository; the
  model takes them as parameters. \<open>plist_loads\<close> is \<^verbatim>\<open>plistlib.load(fp, fmt=FMT_XML)\<close> on
  the bytes of the file: malformed markup is \<open>Inl ExpatError\<close>. \<open>plist_dumps\<close> is
  \<^verbatim>\<open>plistlib.dump\<close>, which raises for a value that XML cannot carry.
\<close>

record pylib =
  plist_dumps :: "plist \<Rightarrow> pyerr + bytes"
  plist_loads :: "bytes \<Rightarrow> pyerr + plist"
  str_lower :: "pystr \<Rightarrow> pystr"

text \<open>\<^verbatim>\<open>d[k]\<close>, the truth value of an object, and \<^verbatim>\<open>==\<close> against an integer or a string.\<close>

definition getitem :: "plist \<Rightarrow> pystr \<Rightarrow> pyerr + pval" where
  "getitem d k = (case map_of d k of None \<Rightarrow> Inl (KeyError k) | Some v \<Rightarrow> Inr v)"

fun truthy :: "pval \<Rightarrow> bool" where
  "truthy (PBool b) = b"
| "truthy (PInt i) = (i \<noteq> 0)"
| "truthy (PStr s) = (s \<noteq> [])"

fun eq_int :: "pval \<Rightarrow> int \<Rightarrow> bool" where
  "eq_int (PBool b) i = ((if b then 1 else 0) = i)"
| "eq_int (PInt j) i = (j = i)"
| "eq_int (PStr s) i = False"

fun eq_str :: "pval \<Rightarrow> pystr \<Rightarrow> bool" where
  "eq_str (PStr s) t = (s = t)"
| "eq_str v t = False"

section \<open>The store\<close>

text \<open>
  The fields of \<^verbatim>\<open>DataStore\<close>. \<^verbatim>\<open>enc_ctx\<close> is \<^verbatim>\<open>None\<close> throughout (the encryption module
  is not imported) and \<^verbatim>\<open>trie\<close> is not used by the functions below; both are left out.
  \<^verbatim>\<open>items\<close> and \<^verbatim>\<open>item_plists\<close> are dictionaries in insertion order.
\<close>

record datastore =
  path :: path
  encrypted :: bool
  password :: "pystr option"
  in_memory :: bool
  storeinfo :: plist
  properties :: plist
  items :: "(pystr \<times> pystr) list"
  item_plists :: "(pystr \<times> plist) list"

text \<open>\<^verbatim>\<open>cls()\<close> followed by \<^verbatim>\<open>ds.path = Path(path)\<close>.\<close>

definition new_datastore :: "path \<Rightarrow> datastore" where
  "new_datastore p =
     \<lparr>path = p, encrypted = False, password = None, in_memory = False,
      storeinfo = [], properties = [], items = [], item_plists = []\<rparr>"

definition item_uuids :: "datastore \<Rightarrow> pystr list" where
  "item_uuids self = map fst (item_plists self)"

definition item :: "datastore \<Rightarrow> pystr \<Rightarrow> pyerr + pystr" where
  "item self uuid =
     (case map_of (items self) uuid of None \<Rightarrow> Inl (KeyError uuid) | Some t \<Rightarrow> Inr t)"

definition item_plist :: "datastore \<Rightarrow> pystr \<Rightarrow> pyerr + plist" where
  "item_plist self uuid =
     (case map_of (item_plists self) uuid of None \<Rightarrow> Inl (KeyError uuid) | Some pl \<Rightarrow> Inr pl)"

text \<open>
  \<^verbatim>\<open>Path(self.path, 'pages', uuid[0], uuid)\<close>, with the segments as the components of the
  path; \<^verbatim>\<open>uuid[0]\<close> raises \<^verbatim>\<open>IndexError\<close> on the empty string. The components are those of
  \<^verbatim>\<open>pathlib\<close> when the identifier is a file name that has no separator and does not begin
  with a dot (\<open>plain_id\<close> below), as every identifier drawn by \<^verbatim>\<open>uuid4\<close> is. For other
  strings \<^verbatim>\<open>pathlib\<close> drops a component \<^verbatim>\<open>.\<close> and restarts at a segment that begins with the
  separator; the statements on addressing are made for plain identifiers.
\<close>

definition item_path :: "datastore \<Rightarrow> pystr \<Rightarrow> pyerr + path" where
  "item_path self uuid =
     (case uuid of
        [] \<Rightarrow> Inl IndexError
      | c # _ \<Rightarrow> Inr (path self @ [str ''pages'', [c], uuid]))"

definition item_plist_path :: "datastore \<Rightarrow> pystr \<Rightarrow> pyerr + path" where
  "item_plist_path self uuid =
     (case uuid of
        [] \<Rightarrow> Inl IndexError
      | c # _ \<Rightarrow> Inr (path self @ [str ''pages'', [c], uuid @ str ''.plist'']))"

text \<open>
  The encrypted branches call a method of \<^verbatim>\<open>enc_ctx\<close>, which is \<^verbatim>\<open>None\<close>: an
  \<^verbatim>\<open>AttributeError\<close>.
\<close>

definition load_plist :: "pylib \<Rightarrow> datastore \<Rightarrow> filesystem \<Rightarrow> path \<Rightarrow> pyerr + plist" where
  "load_plist lib self fs p =
     (if encrypted self then Inl AttributeError
      else bind_err (read_bytes fs p) (plist_loads lib))"

definition save_plist ::
  "pylib \<Rightarrow> datastore \<Rightarrow> filesystem \<Rightarrow> plist \<Rightarrow> path \<Rightarrow> pyerr + filesystem" where
  "save_plist lib self fs pl p =
     bind_err (os_makedirs fs (butlast p)) (\<lambda>fs.
       if encrypted self then Inl AttributeError
       else bind_err (open_wb fs p) (\<lambda>fs.
            bind_err (plist_dumps lib pl) (\<lambda>b. Inr (write_bytes fs p b))))"

definition save_file ::
  "datastore \<Rightarrow> filesystem \<Rightarrow> bytes \<Rightarrow> path \<Rightarrow> pyerr + filesystem" where
  "save_file self fs data p =
     bind_err (os_makedirs fs (butlast p)) (\<lambda>fs.
       if encrypted self then Inl AttributeError
       else bind_err (open_wb fs p) (\<lambda>fs. Inr (write_bytes fs p data)))"

text \<open>
  \<^verbatim>\<open>extract_rtf_content_from_rtfd\<close> returns the value bound to \<^verbatim>\<open>TXT.rtf\<close>, or \<^verbatim>\<open>None\<close>:
  after a message when the magic or the entry is missing, silently when the top-level
  record is not a directory. The second component is what it printed.
\<close>

definition extract_rtf_content_from_rtfd ::
  "filesystem \<Rightarrow> path \<Rightarrow> pyerr + (rtf_item \<times> pystr list)" where
  "extract_rtf_content_from_rtfd fs rtfd_file_path =
     bind_err (read_bytes fs rtfd_file_path) (\<lambda>rtfd_file.
       if take 4 rtfd_file \<noteq> bstr ''rtfd'' then Inr (RNone, [str ''File is not an RTFD file.''])
       else bind_err (read_rtf_item (drop 4 (drop 4 rtfd_file))) (\<lambda>contents.
         case contents of
           RDict d \<Rightarrow>
             (case map_of d (str ''TXT.rtf'') of
                Some v \<Rightarrow> Inr (v, [])
              | None \<Rightarrow> Inr (RNone, [str ''Could not find RTF.rtf in RTFD file.'']))
         | _ \<Rightarrow> Inr (RNone, [])))"

definition load_file ::
  "datastore \<Rightarrow> filesystem \<Rightarrow> path \<Rightarrow> pyerr + (rtf_item \<times> pystr list)" where
  "load_file self fs p =
     (if encrypted self then Inl AttributeError
      else bind_err (read_bytes fs p) (\<lambda>file_content.
        if length file_content > 4 \<and> take 4 file_content = bstr ''rtfd''
        then extract_rtf_content_from_rtfd fs p
        else Inr (RBytes file_content, [])))"

text \<open>\<^verbatim>\<open>s.endswith(suffix)\<close>\<close>

definition endswith :: "pystr \<Rightarrow> pystr \<Rightarrow> bool" where
  "endswith s suffix =
     (length suffix \<le> length s \<and> drop (length s - length suffix) s = suffix)"

fun list_entries :: "path \<Rightarrow> pystr list \<Rightarrow> path list" where
  "list_entries d [] = []"
| "list_entries d (e # entries) =
     (if endswith e (str ''.plist'') then (d @ [e]) # list_entries d entries
      else list_entries d entries)"

fun list_subdirs :: "filesystem \<Rightarrow> path \<Rightarrow> pystr list \<Rightarrow> pyerr + path list" where
  "list_subdirs fs d [] = Inr []"
| "list_subdirs fs d (s # subdirs) =
     (if \<not> is_dir fs (d @ [s]) then list_subdirs fs d subdirs
      else bind_err (os_listdir fs (d @ [s])) (\<lambda>entries.
           bind_err (list_subdirs fs d subdirs) (\<lambda>plists.
             Inr (list_entries (d @ [s]) entries @ plists))))"

definition get_plists :: "filesystem \<Rightarrow> path \<Rightarrow> pyerr + path list" where
  "get_plists fs d = bind_err (os_listdir fs d) (list_subdirs fs d)"

text \<open>
  \<^verbatim>\<open>Path.stem\<close>: the final component without its last suffix; a name whose last dot is
  its first or its last character has no suffix. \<open>rfind s c\<close> is the highest index of
  \<open>c\<close> in \<open>s\<close>.
\<close>

definition rfind :: "pystr \<Rightarrow> nat \<Rightarrow> nat option" where
  "rfind s c =
     (if c \<in> set s then Some (length s - 1 - length (takeWhile (\<lambda>x. x \<noteq> c) (rev s)))
      else None)"

definition stem :: "path \<Rightarrow> pystr" where
  "stem p =
     (case rev p of
        [] \<Rightarrow> []
      | name # _ \<Rightarrow>
          (case rfind name 46 of
             None \<Rightarrow> name
           | Some i \<Rightarrow> if 0 < i \<and> i < length name - 1 then take i name else name))"

text \<open>
  \<^verbatim>\<open>add_item\<close>. The fresh identifier \<^verbatim>\<open>str(UUID.uuid4())\<close> is the argument \<open>uuid4\<close>. The
  result is the identifier with the updated store object and file system.
\<close>

definition add_item ::
  "pylib \<Rightarrow> pystr \<Rightarrow> datastore \<Rightarrow> filesystem \<Rightarrow> pystr \<Rightarrow> pystr \<Rightarrow> pystr
     \<Rightarrow> pyerr + (pystr \<times> datastore \<times> filesystem)" where
  "add_item lib uuid4 self fs name text format =
     (let item_uuid = uuid4;
          item_key = str_lower lib name
      in bind_err (sha1_hash text) (\<lambda>data_hash.
         let pl = [(str ''uuid'', PStr item_uuid),
                   (str ''key'', PStr item_key),
                   (str ''displayName'', PStr name),
                   (str ''uti'', PStr format),
                   (str ''dataHash'', PStr data_hash)]
         in case item_uuid of
              [] \<Rightarrow> Inl IndexError
            | c # _ \<Rightarrow>
                (let item_path = path self @ [str ''pages'', [c], item_uuid];
                     plist_path = path self @ [str ''pages'', [c], item_uuid @ str ''.plist'']
                 in bind_err (save_plist lib self fs pl plist_path) (\<lambda>fs.
                    bind_err (case utf8_encode text of
                                None \<Rightarrow> Inl UnicodeEncodeError
                              | Some data \<Rightarrow> Inr data) (\<lambda>data.
                    bind_err (save_file self fs data item_path) (\<lambda>fs.
                      Inr (item_uuid,
                           self\<lparr>items := AList.update item_uuid text (items self),
                                item_plists := AList.update item_uuid pl (item_plists self)\<rparr>,
                           fs)))))))"

text \<open>\<^verbatim>\<open>create\<close>; \<open>uuid4_store\<close> and \<open>uuid4_item\<close> are the two identifiers drawn.\<close>

fun mkdir_shards :: "filesystem \<Rightarrow> path \<Rightarrow> nat list \<Rightarrow> pyerr + filesystem" where
  "mkdir_shards fs p [] = Inr fs"
| "mkdir_shards fs p (i # r) =
     bind_err (os_mkdir fs (p @ [str ''pages'', [hex_digit i]])) (\<lambda>fs. mkdir_shards fs p r)"

definition create ::
  "pylib \<Rightarrow> pystr \<Rightarrow> pystr \<Rightarrow> filesystem \<Rightarrow> path \<Rightarrow> pyerr + (datastore \<times> filesystem)" where
  "create lib uuid4_store uuid4_item fs p =
     (let ds = new_datastore p;
          ds = ds\<lparr>in_memory := False\<rparr>
      in bind_err (os_mkdir fs (path ds)) (\<lambda>fs.
         bind_err (os_mkdir fs (path ds @ [str ''pages''])) (\<lambda>fs.
         bind_err (mkdir_shards fs (path ds) [0..<16]) (\<lambda>fs.
         let ds = ds\<lparr>storeinfo :=
                    [(str ''isEncrypted'', PBool False),
                     (str ''uuid'', PStr uuid4_store),
                     (str ''VoodooPadBundleVersion'', PInt 6)]\<rparr>;
             ds = ds\<lparr>properties :=
                    [(str ''allowPluginLinks'', PBool True),
                     (str ''bdToBookmarkAliasUpgrade'', PBool True),
                     (str ''createSpotlightIndex'', PBool True),
                     (str ''dbVersion'', PInt 7),
                     (str ''expectedPageCount'', PInt 0),
                     (str ''localWebAccess'', PBool False),
                     (str ''newPageUTI'', PStr (str ''net.daringfireball.markdown'')),
                     (str ''skIndexVersion'', PInt 7),
                     (str ''updatedFMPageToRealUTIs'', PBool True),
                     (str ''updatedSpecialPages3'', PBool True),
                     (str ''uuid'', PStr uuid4_store)]\<rparr>;
             index_title = str ''Index''
         in bind_err (add_item lib uuid4_item ds fs (str ''Index'')
                        (str ''Write about Index here.'') (str ''net.daringfireball.markdown''))
              (\<lambda>(index_uuid, ds, fs).
         let ds = ds\<lparr>properties :=
                    AList.update (str ''defaultPage'') (PStr index_title) (properties ds)\<rparr>;
             ds = ds\<lparr>properties :=
                    AList.update (str ''defaultUUID'') (PStr index_uuid) (properties ds)\<rparr>;
             storeinfo_path = path ds @ [str ''storeinfo.plist''];
             properties_path = path ds @ [str ''properties.plist'']
         in bind_err (open_wb fs storeinfo_path) (\<lambda>fs.
            bind_err (plist_dumps lib (storeinfo ds)) (\<lambda>b.
            let fs = write_bytes fs storeinfo_path b in
            bind_err (open_wb fs properties_path) (\<lambda>fs.
            bind_err (plist_dumps lib (properties ds)) (\<lambda>b.
            let fs = write_bytes fs properties_path b in
            Inr (ds, fs))))))))))"

text \<open>
  \<^verbatim>\<open>open\<close>, in three parts. \<open>open_checks\<close> is the function up to the test of the
  \<^verbatim>\<open>pages\<close> directory; it returns the store object with \<^verbatim>\<open>storeinfo\<close> and
  \<^verbatim>\<open>properties\<close> loaded.
\<close>

definition open_checks ::
  "pylib \<Rightarrow> filesystem \<Rightarrow> path \<Rightarrow> pystr option \<Rightarrow> bool \<Rightarrow> pyerr + datastore" where
  "open_checks lib fs p pw in_mem =
     (let ds = new_datastore p;
          ds = ds\<lparr>encrypted := False, password := pw, in_memory := in_mem\<rparr>;
          storeinfo_path = path ds @ [str ''storeinfo.plist'']
      in if \<not> path_exists fs storeinfo_path then Inl (FileNotFoundError storeinfo_path)
      else
        let properties_path = path ds @ [str ''properties.plist'']
        in if \<not> path_exists fs properties_path then Inl (FileNotFoundError properties_path)
        else
          bind_err (bind_err (read_bytes fs storeinfo_path) (plist_loads lib)) (\<lambda>si.
          let ds = ds\<lparr>storeinfo := si\<rparr> in
          bind_err (getitem (storeinfo ds) (str ''isEncrypted'')) (\<lambda>enc.
          if truthy enc then Inl (Exception (str ''Encrypted documents are not supported''))
          else
            bind_err (getitem (storeinfo ds) (str ''VoodooPadBundleVersion'')) (\<lambda>v.
            if \<not> eq_int v 5 then Inl (Exception (str ''Unsupported''))
            else
              bind_err (load_plist lib ds fs properties_path) (\<lambda>props.
              let ds = ds\<lparr>properties := props\<rparr>;
                  items_path = path ds @ [str ''pages'']
              in if \<not> is_dir fs items_path then Inl (FileNotFoundError properties_path)
                 else Inr ds)))))"

text \<open>
  The first loop of \<^verbatim>\<open>open\<close>: load each enumerated metadata file; an \<^verbatim>\<open>ExpatError\<close> is
  caught, a message is printed and the loop goes on. The result is the table with the
  messages printed.
\<close>

fun load_item_plists ::
  "pylib \<Rightarrow> datastore \<Rightarrow> filesystem \<Rightarrow> path list \<Rightarrow> (pystr \<times> plist) list \<Rightarrow> pystr list
     \<Rightarrow> pyerr + ((pystr \<times> plist) list \<times> pystr list)" where
  "load_item_plists lib ds fs [] tbl out = Inr (tbl, out)"
| "load_item_plists lib ds fs (plist_path # rest) tbl out =
     (let item_uuid = stem plist_path in
      case load_plist lib ds fs plist_path of
        Inl e \<Rightarrow>
          if e = ExpatError
          then load_item_plists lib ds fs rest tbl
                 (out @ [str ''Skipping '' @ item_uuid @ str '' due to invalid plist''])
          else Inl e
      | Inr pl \<Rightarrow>
          load_item_plists lib ds fs rest (AList.update item_uuid pl tbl) out)"

text \<open>
  \<^verbatim>\<open>.decode('utf-8')\<close> on what \<^verbatim>\<open>load_file\<close> returned: only a byte string has the method.
\<close>

definition decode :: "rtf_item \<Rightarrow> pyerr + pystr" where
  "decode v =
     (case v of
        RBytes b \<Rightarrow> (case utf8_decode b of None \<Rightarrow> Inl UnicodeDecodeError | Some t \<Rightarrow> Inr t)
      | _ \<Rightarrow> Inl AttributeError)"

text \<open>The second loop of \<^verbatim>\<open>open\<close>, over the keys of \<^verbatim>\<open>item_plists\<close>.\<close>

fun load_items ::
  "datastore \<Rightarrow> filesystem \<Rightarrow> pystr list \<Rightarrow> (pystr \<times> pystr) list \<Rightarrow> pystr list
     \<Rightarrow> pyerr + ((pystr \<times> pystr) list \<times> pystr list)" where
  "load_items ds fs [] its out = Inr (its, out)"
| "load_items ds fs (item_uuid # rest) its out =
     bind_err (item_plist ds item_uuid) (\<lambda>pl.
     bind_err (getitem pl (str ''uti'')) (\<lambda>uti.
     if eq_str uti (str ''com.fm.page-alias'') then load_items ds fs rest its out
     else if eq_str uti (str ''com.fm.file-alias'') then load_items ds fs rest its out
     else
       bind_err (item_path ds item_uuid) (\<lambda>ip.
       if \<not> path_exists fs ip then Inl (FileNotFoundError ip)
       else
         bind_err (load_file ds fs ip) (\<lambda>(v, printed).
         bind_err (decode v) (\<lambda>text.
           load_items ds fs rest (AList.update item_uuid text its) (out @ printed))))))"

text \<open>
  \<open>open_items\<close> is the two loops on the enumerated paths; \<open>open_store\<close> is \<^verbatim>\<open>open\<close>: the
  checks, the enumeration with \<^verbatim>\<open>get_plists\<close>, and the two loops. The result is the store
  object with the lines printed on the way.
\<close>

definition open_items ::
  "pylib \<Rightarrow> filesystem \<Rightarrow> datastore \<Rightarrow> path list \<Rightarrow> pyerr + (datastore \<times> pystr list)" where
  "open_items lib fs ds item_plist_paths =
     bind_err (load_item_plists lib ds fs item_plist_paths [] []) (\<lambda>(tbl, out1).
     let ds = ds\<lparr>item_plists := tbl\<rparr> in
     bind_err (load_items ds fs (item_uuids ds) [] []) (\<lambda>(its, out2).
       Inr (ds\<lparr>items := its\<rparr>, out1 @ out2)))"

definition open_store ::
  "pylib \<Rightarrow> filesystem \<Rightarrow> path \<Rightarrow> pystr option \<Rightarrow> bool
     \<Rightarrow> pyerr + (datastore \<times> pystr list)" where
  "open_store lib fs p pw in_mem =
     bind_err (open_checks lib fs p pw in_mem) (\<lambda>ds.
     bind_err (get_plists fs (path ds @ [str ''pages''])) (\<lambda>item_plist_paths.
       open_items lib fs ds item_plist_paths))"

text \<open>\<^verbatim>\<open>validate\<close>, with the warnings it prints.\<close>

fun validate_loop ::
  "datastore \<Rightarrow> pystr list \<Rightarrow> bool \<Rightarrow> pystr list \<Rightarrow> pyerr + (bool \<times> pystr list)" where
  "validate_loop self [] valid out = Inr (valid, out)"
| "validate_loop self (item_uuid # rest) valid out =
     bind_err (item_plist self item_uuid) (\<lambda>pl.
     bind_err (getitem pl (str ''uuid'')) (\<lambda>v.
     if \<not> eq_str v item_uuid
     then validate_loop self rest False (out @ [str ''[WARN] UUID mismatch for '' @ item_uuid])
     else validate_loop self rest valid out))"

definition validate :: "datastore \<Rightarrow> pyerr + (bool \<times> pystr list)" where
  "validate self = validate_loop self (item_uuids self) True []"

text \<open>The metadata record that \<^verbatim>\<open>add_item\<close> builds, by its digest.\<close>

definition item_record :: "pylib \<Rightarrow> pystr \<Rightarrow> pystr \<Rightarrow> pystr \<Rightarrow> pystr \<Rightarrow> plist" where
  "item_record lib u name format h =
     [(str ''uuid'', PStr u), (str ''key'', PStr (str_lower lib name)),
      (str ''displayName'', PStr name), (str ''uti'', PStr format),
      (str ''dataHash'', PStr h)]"

section \<open>A library for concrete runs\<close>

text \<open>
  Concrete runs fix the library functions by a table of the documents that occur in the
  run: \<open>plist_loads\<close> maps the bytes of a listed document to its dictionary and reports
  malformed markup for all other bytes, \<open>plist_dumps\<close> maps a listed dictionary to its
  bytes, and \<open>str_lower\<close> is \<^verbatim>\<open>str.lower\<close> on ASCII text.
\<close>

definition ascii_lower :: "pystr \<Rightarrow> pystr" where
  "ascii_lower s = map (\<lambda>c. if 65 \<le> c \<and> c \<le> 90 then c + 32 else c) s"

definition table_lib :: "(bytes \<times> plist) list \<Rightarrow> pylib" where
  "table_lib docs =
     \<lparr>plist_dumps =
        (\<lambda>pl. case map_of (map (\<lambda>(b, d). (d, b)) docs) pl of
                None \<Rightarrow> Inl PlistError
              | Some b \<Rightarrow> Inr b),
      plist_loads =
        (\<lambda>b. case map_of docs b of None \<Rightarrow> Inl ExpatError | Some d \<Rightarrow> Inr d),
      str_lower = ascii_lower\<rparr>"

section \<open>Example stores\<close>

text \<open>
  The documents and file systems of the concrete runs. A store directory \<^verbatim>\<open>s\<close> with an
  empty shard \<^verbatim>\<open>a\<close>, and the metadata record of a note \<^verbatim>\<open>Hi\<close> with text \<^verbatim>\<open>yo\<close> and
  identifier \<^verbatim>\<open>a1\<close>, with its document.
\<close>

definition note_record :: plist where
  "note_record =
     [(str ''uuid'', PStr (str ''a1'')), (str ''key'', PStr (str ''hi'')),
      (str ''displayName'', PStr (str ''Hi'')), (str ''uti'', PStr (str ''t'')),
      (str ''dataHash'', PStr (sha1_hexdigest (bstr ''yo'')))]"

definition note_xml :: bytes where
  "note_xml = bstr (''<plist><dict><key>dataHash</key>''
     @ ''<string>c41975d1dae1cc69b16ad8892b8c77164e84ca39</string>''
     @ ''<key>displayName</key><string>Hi</string><key>key</key><string>hi</string>''
     @ ''<key>uti</key><string>t</string><key>uuid</key><string>a1</string></dict></plist>'')"

definition empty_store_fs :: filesystem where
  "empty_store_fs =
     [([str ''s''], Dir), ([str ''s'', str ''pages''], Dir),
      ([str ''s'', str ''pages'', str ''a''], Dir)]"

definition storeinfo5 :: plist where
  "storeinfo5 =
     [(str ''isEncrypted'', PBool False), (str ''uuid'', PStr (str ''s0'')),
      (str ''VoodooPadBundleVersion'', PInt 5)]"

definition storeinfo5_xml :: bytes where
  "storeinfo5_xml = bstr (''<plist><dict><key>VoodooPadBundleVersion</key><integer>5</integer>''
     @ ''<key>isEncrypted</key><false/><key>uuid</key><string>s0</string></dict></plist>'')"

definition props0 :: plist where
  "props0 = [(str ''defaultPage'', PStr (str ''Hi'')), (str ''defaultUUID'', PStr (str ''a1''))]"

definition props0_xml :: bytes where
  "props0_xml = bstr (''<plist><dict><key>defaultPage</key><string>Hi</string>''
     @ ''<key>defaultUUID</key><string>a1</string></dict></plist>'')"

definition demo_lib :: pylib where
  "demo_lib = table_lib [(storeinfo5_xml, storeinfo5), (props0_xml, props0), (note_xml, note_record)]"

definition demo_store :: "bytes \<Rightarrow> filesystem" where
  "demo_store content =
     [([str ''s''], Dir),
      ([str ''s'', str ''storeinfo.plist''], File storeinfo5_xml),
      ([str ''s'', str ''properties.plist''], File props0_xml),
      ([str ''s'', str ''pages''], Dir),
      ([str ''s'', str ''pages'', str ''a''], Dir),
      ([str ''s'', str ''pages'', str ''a'', str ''a1.plist''], File note_xml),
      ([str ''s'', str ''pages'', str ''a'', str ''a1''], File content)]"

definition demo_ds0 :: datastore where
  "demo_ds0 = (new_datastore [str ''s''])\<lparr>storeinfo := storeinfo5, properties := props0\<rparr>"

definition demo_ds :: datastore where
  "demo_ds = demo_ds0\<lparr>item_plists := [(str ''a1'', note_record)]\<rparr>"

section \<open>Encoded records\<close>

text \<open>
  The properties of the decoder are stated on encoded streams. \<open>le32 n\<close> is the 4-byte
  little-endian field that holds \<open>n\<close>.
\<close>

definition le32 :: "nat \<Rightarrow> bytes" where
  "le32 n = [of_nat n, of_nat (n div 256), of_nat (n div 65536), of_nat (n div 16777216)]"

text \<open>
  A leaf record with its payload, and a directory record: the count, the length-prefixed
  names, the sizes of the encoded entries, and the encoded entries themselves.
\<close>

definition enc_names :: "bytes list \<Rightarrow> bytes" where
  "enc_names name_bytes = concat (map (\<lambda>nb. le32 (length nb) @ nb) name_bytes)"

definition enc_sizes :: "bytes list \<Rightarrow> bytes" where
  "enc_sizes raws = concat (map (\<lambda>r. le32 (length r)) raws)"

definition enc_leaf :: "bytes \<Rightarrow> bytes" where
  "enc_leaf payload = le32 1 @ le32 (length payload) @ payload"

definition enc_directory :: "bytes list \<Rightarrow> bytes list \<Rightarrow> bytes" where
  "enc_directory name_bytes raws =
     le32 3 @ le32 (length raws) @ enc_names name_bytes @ enc_sizes raws @ concat raws"

definition rtfd_container :: "bytes \<Rightarrow> bytes \<Rightarrow> bytes" where
  "rtfd_container name payload =
     bstr ''rtfd'' @ [0, 0, 0, 0] @ enc_directory [name] [enc_leaf payload]"

definition rtfd_bad_tag :: bytes where
  "rtfd_bad_tag = bstr ''rtfd'' @ [0, 0, 0, 0] @ [2, 0, 0, 0]"

definition no_pages_store :: filesystem where
  "no_pages_store =
     [([str ''s''], Dir),
      ([str ''s'', str ''storeinfo.plist''], File storeinfo5_xml),
      ([str ''s'', str ''properties.plist''], File props0_xml)]"






fun returned :: "pyerr + ('a \<times> pystr list) \<Rightarrow> pyerr + 'a" where
  "returned (Inl e) = Inl e"
| "returned (Inr (x, out)) = Inr x"

text \<open>
  The run of \<^verbatim>\<open>create\<close> on the path \<^verbatim>\<open>s\<close> of an empty file system, with the identifiers
  \<^verbatim>\<open>s0\<close> and \<^verbatim>\<open>a1\<close> drawn: the three documents that it serialises, the store object that
  it returns and the files that it leaves.
\<close>

definition storeinfo6 :: plist where
  "storeinfo6 =
     [(str ''isEncrypted'', PBool False), (str ''uuid'', PStr (str ''s0'')),
      (str ''VoodooPadBundleVersion'', PInt 6)]"

definition storeinfo6_xml :: bytes where
  "storeinfo6_xml = bstr (''<plist><dict><key>VoodooPadBundleVersion</key><integer>6</integer>''
     @ ''<key>isEncrypted</key><false/><key>uuid</key><string>s0</string></dict></plist>'')"

definition created_props :: plist where
  "created_props =
     [(str ''allowPluginLinks'', PBool True),
      (str ''bdToBookmarkAliasUpgrade'', PBool True),
      (str ''createSpotlightIndex'', PBool True),
      (str ''dbVersion'', PInt 7),
      (str ''expectedPageCount'', PInt 0),
      (str ''localWebAccess'', PBool False),
      (str ''newPageUTI'', PStr (str ''net.daringfireball.markdown'')),
      (str ''skIndexVersion'', PInt 7),
      (str ''updatedFMPageToRealUTIs'', PBool True),
      (str ''updatedSpecialPages3'', PBool True),
      (str ''uuid'', PStr (str ''s0'')),
      (str ''defaultPage'', PStr (str ''Index'')),
      (str ''defaultUUID'', PStr (str ''a1''))]"

definition created_props_xml :: bytes where
  "created_props_xml = bstr (''<plist><dict><key>allowPluginLinks</key><true/>''
     @ ''<key>bdToBookmarkAliasUpgrade</key><true/><key>createSpotlightIndex</key><true/>''
     @ ''<key>dbVersion</key><integer>7</integer><key>defaultPage</key><string>Index</string>''
     @ ''<key>defaultUUID</key><string>a1</string><key>expectedPageCount</key>''
     @ ''<integer>0</integer><key>localWebAccess</key><false/><key>newPageUTI</key>''
     @ ''<string>net.daringfireball.markdown</string><key>skIndexVersion</key>''
     @ ''<integer>7</integer><key>updatedFMPageToRealUTIs</key><true/>''
     @ ''<key>updatedSpecialPages3</key><true/><key>uuid</key><string>s0</string>''
     @ ''</dict></plist>'')"

definition index_record :: plist where
  "index_record =
     [(str ''uuid'', PStr (str ''a1'')), (str ''key'', PStr (str ''index'')),
      (str ''displayName'', PStr (str ''Index'')),
      (str ''uti'', PStr (str ''net.daringfireball.markdown'')),
      (str ''dataHash'', PStr (sha1_hexdigest (bstr ''Write about Index here.'')))]"

definition index_xml :: bytes where
  "index_xml = bstr (''<plist><dict><key>dataHash</key>''
     @ ''<string>2d133932f8b86ab9662271d65ac1e8bb8defbc2b</string>''
     @ ''<key>displayName</key><string>Index</string><key>key</key><string>index</string>''
     @ ''<key>uti</key><string>net.daringfireball.markdown</string>''
     @ ''<key>uuid</key><string>a1</string></dict></plist>'')"

definition create_lib :: pylib where
  "create_lib = table_lib [(storeinfo6_xml, storeinfo6), (created_props_xml, created_props),
                           (index_xml, index_record)]"

definition created_ds :: datastore where
  "created_ds =
     (new_datastore [str ''s''])\<lparr>storeinfo := storeinfo6, properties := created_props,
        items := [(str ''a1'', str ''Write about Index here.'')],
        item_plists := [(str ''a1'', index_record)]\<rparr>"

definition created_fs :: filesystem where
  "created_fs =
     [([str ''s''], Dir), ([str ''s'', str ''pages''], Dir)]
     @ map (\<lambda>c. ([str ''s'', str ''pages'', [c]], Dir)) (str ''0123456789abcdef'')
     @ [([str ''s'', str ''pages'', str ''a'', str ''a1.plist''], File index_xml),
        ([str ''s'', str ''pages'', str ''a'', str ''a1''], File (bstr ''Write about Index here.'')),
        ([str ''s'', str ''storeinfo.plist''], File storeinfo6_xml),
        ([str ''s'', str ''properties.plist''], File created_props_xml)]"

section \<open>Properties of the decoder\<close>

lemma bind_err_simps [simp]:
  "bind_err (Inl e) f = Inl e"
  "bind_err (Inr x) f = f x"
  by (simp_all add: bind_err_def)

lemma length_le32 [simp]: "length (le32 n) = 4"
  by (simp add: le32_def)

lemma unat_byte [simp]: "unat (of_nat k :: byte) = k mod 256"
  by (simp add: unat_of_nat)

lemma read_int_le32 [simp]:
  assumes "n < 2 ^ 32"
  shows "read_int (le32 n) = n"
proof -
  define a where "a = n div 256"
  define b where "b = a div 256"
  define c where "c = b div 256"
  have n: "n = n mod 256 + 256 * a" by (simp add: a_def)
  have a: "a = a mod 256 + 256 * b" by (simp add: b_def)
  have b: "b = b mod 256 + 256 * c" by (simp add: c_def)
  have c: "c mod 256 = c"
    using assms by (simp add: a_def b_def c_def div_mult2_eq [symmetric])
  have e2: "n div 65536 = b"
    by (simp add: a_def b_def div_mult2_eq [symmetric])
  have e3: "n div 16777216 = c"
    by (simp add: a_def b_def c_def div_mult2_eq [symmetric])
  have "read_int (le32 n)
          = n mod 256 + 256 * (a mod 256 + 256 * (b mod 256 + 256 * (c mod 256)))"
    by (simp add: le32_def e2 e3 a_def [symmetric])
  also have "\<dots> = n"
    using n a b c by presburger
  finally show ?thesis .
qed

lemma read_leaf:
  assumes "n < 2 ^ 32" and "n \<noteq> 2147483648"
  shows "read_rtf_item (le32 1 @ le32 n @ s) = Inr (RBytes (take n s))"
  using assms by (subst read_rtf_item.simps) simp

lemma read_leaf_padded:
  assumes "P < 2 ^ 32" and "R < 2 ^ 32"
  shows "read_rtf_item (le32 1 @ le32 2147483648 @ le32 P @ le32 R @ s)
           = Inr (RBytes (take R (drop P s)))"
  using assms by (subst read_rtf_item.simps) (simp add: Let_def)

text \<open>
  Claim C6. A leaf record (tag 1) whose size field holds an ordinary size \<open>n\<close> decodes to
  exactly the next \<open>n\<close> bytes of the stream. With the sentinel \<open>0x80000000\<close> in the size
  field, followed by a padding size \<open>P\<close> and a real size \<open>R\<close>, the decoder skips exactly
  the \<open>P\<close> padding bytes and returns exactly the next \<open>R\<close> bytes; the padding is not
  part of the result. Whatever follows the record in the stream is left alone.
\<close>

theorem leaf_record_payload:
  "(n < 2 ^ 32 \<and> n \<noteq> 2147483648 \<and> length payload = n \<longrightarrow>
      read_rtf_item (le32 1 @ le32 n @ payload @ rest) = Inr (RBytes payload))
   \<and> (P < 2 ^ 32 \<and> R < 2 ^ 32 \<and> length padding = P \<and> length payload' = R \<longrightarrow>
      read_rtf_item (le32 1 @ le32 2147483648 @ le32 P @ le32 R @ padding @ payload' @ rest')
        = Inr (RBytes payload'))"
  using read_leaf [of n "payload @ rest"]
    read_leaf_padded [of P R "padding @ payload' @ rest'"]
  by auto

theorem leaf_record_payload_witness:
  "read_rtf_item [1, 0, 0, 0, 3, 0, 0, 0, 10, 20, 30, 7] = Inr (RBytes [10, 20, 30])
   \<and> read_rtf_item [1, 0, 0, 0, 0, 0, 0, 128, 2, 0, 0, 0, 3, 0, 0, 0, 0, 0, 10, 20, 30, 7]
       = Inr (RBytes [10, 20, 30])"
proof -
  have e: "le32 1 = [1, 0, 0, 0]" "le32 2 = [2, 0, 0, 0]" "le32 3 = [3, 0, 0, 0]"
    "le32 2147483648 = [0, 0, 0, 128]"
    by (simp_all add: le32_def)
  show ?thesis
    using leaf_record_payload [of 3 "[10, 20, 30]" "[7]" 2 3 "[0, 0]" "[10, 20, 30]" "[7]"]
    unfolding e by simp
qed




lemma read_names_enc:
  assumes "list_all2 (\<lambda>nb n. length nb < 2 ^ 32 \<and> utf8_decode nb = Some n) nbs ns"
  shows "read_names (length nbs) (enc_names nbs @ rest) acc dm
           = Inr (acc @ ns, fold (\<lambda>n. AList.update n RNone) ns dm, rest)"
  using assms
proof (induction nbs ns arbitrary: acc dm rule: list_all2_induct)
  case Nil
  then show ?case by (simp add: enc_names_def)
next
  case (Cons nb nbs n ns)
  have "enc_names (nb # nbs) @ rest = le32 (length nb) @ nb @ enc_names nbs @ rest"
    by (simp add: enc_names_def)
  then show ?case
    using Cons by simp
qed

lemma read_sizes_enc:
  assumes "\<forall>r\<in>set raws. length r < 2 ^ 32"
  shows "read_sizes (length raws) (enc_sizes raws @ rest) = (map length raws, rest)"
  using assms
proof (induction raws)
  case Nil
  then show ?case by (simp add: enc_sizes_def)
next
  case (Cons r raws)
  have "enc_sizes (r # raws) @ rest = le32 (length r) @ enc_sizes raws @ rest"
    by (simp add: enc_sizes_def)
  then show ?case
    using Cons by simp
qed

lemma read_data_concat: "read_data (map length raws) (concat raws @ rest) = raws"
  by (induction raws) simp_all

lemma read_directory_enc:
  assumes "list_all2 (\<lambda>nb n. length nb < 2 ^ 32 \<and> utf8_decode nb = Some n) nbs ns"
    and "length raws = length ns" and "length ns < 2 ^ 32"
    and "\<forall>r\<in>set raws. length r < 2 ^ 32"
  shows "read_directory (le32 (length ns) @ enc_names nbs @ enc_sizes raws @ concat raws @ rest)
           = Inr (ns, fold (\<lambda>n. AList.update n RNone) ns [], raws)"
proof -
  have l: "length nbs = length ns"
    using assms(1) by (rule list_all2_lengthD)
  show ?thesis
    using assms(2-4) read_names_enc [OF assms(1), of "enc_sizes raws @ concat raws @ rest" "[]" "[]"]
      read_sizes_enc [of raws "concat raws @ rest"] l
    by (simp add: read_directory_def read_data_concat)
qed

lemma update_append_notin:
  "k \<notin> fst ` set xs \<Longrightarrow> AList.update k v (xs @ ys) = xs @ AList.update k v ys"
  by (induction xs) auto

lemma fold_init_distinct:
  "distinct ns \<Longrightarrow> set ns \<inter> fst ` set dm = {} \<Longrightarrow>
     fold (\<lambda>n. AList.update n RNone) ns dm = dm @ map (\<lambda>n. (n, RNone)) ns"
proof (induction ns arbitrary: dm)
  case Nil
  then show ?case by simp
next
  case (Cons n ns)
  have "AList.update n RNone dm = dm @ [(n, RNone)]"
    using Cons.prems(2) update_append_notin [of n dm RNone "[]"] by simp
  moreover have "set ns \<inter> fst ` set (dm @ [(n, RNone)]) = {}"
    using Cons.prems by auto
  ultimately show ?case
    using Cons.IH [of "dm @ [(n, RNone)]"] Cons.prems(1) by simp
qed

lemma assign_items_distinct:
  "distinct (ns1 @ ns2) \<Longrightarrow> length ns1 = length vs1 \<Longrightarrow> length ns2 = length vs2 \<Longrightarrow>
     assign_items (zip ns1 vs1 @ map (\<lambda>n. (n, RNone)) ns2) (zip ns2 (map Inr vs2))
       = Inr (zip ns1 vs1 @ zip ns2 vs2)"
proof (induction ns2 arbitrary: ns1 vs1 vs2)
  case Nil
  then show ?case by simp
next
  case (Cons n ns2)
  then obtain v vs2' where v: "vs2 = v # vs2'"
    by (cases vs2) auto
  have notin: "n \<notin> fst ` set (zip ns1 vs1)"
    using Cons.prems(1) by (auto dest: set_zip_leftD)
  have "AList.update n v (zip ns1 vs1 @ (n, RNone) # map (\<lambda>n. (n, RNone)) ns2)
          = zip (ns1 @ [n]) (vs1 @ [v]) @ map (\<lambda>n. (n, RNone)) ns2"
    using notin Cons.prems(2) by (simp add: update_append_notin)
  moreover have "assign_items (zip (ns1 @ [n]) (vs1 @ [v]) @ map (\<lambda>n. (n, RNone)) ns2)
                   (zip ns2 (map Inr vs2')) = Inr (zip (ns1 @ [n]) (vs1 @ [v]) @ zip ns2 vs2')"
    using Cons.prems v by (intro Cons.IH) auto
  ultimately show ?case
    using v Cons.prems(2) by simp
qed

lemma read_directory_record:
  assumes "list_all2 (\<lambda>nb n. length nb < 2 ^ 32 \<and> utf8_decode nb = Some n) nbs ns"
    and "length raws = length ns" and "length ns < 2 ^ 32"
    and "\<forall>r\<in>set raws. length r < 2 ^ 32"
    and "map read_rtf_item raws = map Inr subs"
    and "distinct ns"
  shows "read_rtf_item (le32 3 @ le32 (length ns) @ enc_names nbs @ enc_sizes raws
                          @ concat raws @ rest) = Inr (RDict (zip ns subs))"
proof -
  have len: "length ns = length subs"
    using assms(2,5) by (metis length_map)
  have a: "assign_items (fold (\<lambda>n. AList.update n RNone) ns []) (zip ns (map Inr subs))
             = Inr (zip ns subs)"
    using assign_items_distinct [of "[]" ns "[]" subs] fold_init_distinct [of ns "[]"]
      assms(6) len by simp
  show ?thesis
    using read_directory_enc [OF assms(1-4), of rest] a assms(5)
    by (subst read_rtf_item.simps) simp
qed

lemma utf8_txt: "utf8_decode (bstr ''TXT.rtf'') = Some (str ''TXT.rtf'')"
  by (simp add: bstr_def str_def)

lemma assign_items_fold:
  "length ns = length vs \<Longrightarrow>
     assign_items dm (zip ns (map Inr vs)) = Inr (fold (\<lambda>(n, v). AList.update n v) (zip ns vs) dm)"
proof (induction ns arbitrary: dm vs)
  case Nil
  then show ?case by simp
next
  case (Cons n ns)
  then show ?case by (cases vs) auto
qed

lemma map_of_fold_update:
  "map_of (fold (\<lambda>(n, v). AList.update n v) xs dm) = map_of dm ++ map_of (rev xs)"
proof (induction xs arbitrary: dm)
  case Nil
  then show ?case by simp
next
  case (Cons x xs)
  obtain n v where x: "x = (n, v)" by (cases x)
  have "map_of (fold (\<lambda>(n, v). AList.update n v) (x # xs) dm)
          = map_of (AList.update n v dm) ++ map_of (rev xs)"
    using Cons.IH [of "AList.update n v dm"] x by simp
  also have "\<dots> = map_of dm ++ map_of (rev (x # xs))"
    using x by (auto simp: update_conv' fun_eq_iff map_add_def split: option.splits)
  finally show ?case .
qed

lemma keys_fold_update:
  "fst ` set (fold (\<lambda>(n, v). AList.update n v) xs dm) = fst ` set dm \<union> fst ` set xs"
proof (induction xs arbitrary: dm)
  case Nil
  then show ?case by simp
next
  case (Cons x xs)
  obtain n v where x: "x = (n, v)" by (cases x)
  show ?case
    using Cons.IH [of "AList.update n v dm"] x by (auto simp: dom_update)
qed

lemma distinct_fold_update:
  "distinct (map fst dm) \<Longrightarrow> distinct (map fst (fold (\<lambda>(n, v). AList.update n v) xs dm))"
proof (induction xs arbitrary: dm)
  case Nil
  then show ?case by simp
next
  case (Cons x xs)
  obtain n v where x: "x = (n, v)" by (cases x)
  show ?case
    using Cons.IH [of "AList.update n v dm"] Cons.prems x by (simp add: distinct_update)
qed

lemma fold_init_as_pairs:
  "fold (\<lambda>n. AList.update n RNone) ns dm
     = fold (\<lambda>(n, v). AList.update n v) (map (\<lambda>n. (n, RNone)) ns) dm"
  by (induction ns arbitrary: dm) simp_all

lemma read_directory_record_general:
  assumes "list_all2 (\<lambda>nb n. length nb < 2 ^ 32 \<and> utf8_decode nb = Some n) nbs ns"
    and "length raws = length ns" and "length ns < 2 ^ 32"
    and "\<forall>r\<in>set raws. length r < 2 ^ 32"
    and "map read_rtf_item raws = map Inr subs"
  shows "\<exists>d. read_rtf_item (enc_directory nbs raws @ rest) = Inr (RDict d)
           \<and> distinct (map fst d) \<and> set (map fst d) = set ns
           \<and> map_of d = map_of (rev (zip ns subs))
           \<and> (distinct ns \<longrightarrow> d = zip ns subs)"
proof -
  define d0 where "d0 = fold (\<lambda>n. AList.update n RNone) ns []"
  define d where "d = fold (\<lambda>(n, v). AList.update n v) (zip ns subs) d0"
  have len: "length ns = length subs"
    using assms(2,5) by (metis length_map)
  have k0: "fst ` set d0 = set ns"
    unfolding d0_def fold_init_as_pairs by (simp add: keys_fold_update image_image)
  have dist0: "distinct (map fst d0)"
    unfolding d0_def fold_init_as_pairs by (rule distinct_fold_update) simp
  have a: "assign_items d0 (zip ns (map Inr subs)) = Inr d"
    using len by (simp add: assign_items_fold d_def)
  have r: "read_rtf_item (enc_directory nbs raws @ rest) = Inr (RDict d)"
    using read_directory_enc [OF assms(1-4), of rest] a assms(2,5)
    by (subst read_rtf_item.simps) (simp add: enc_directory_def d0_def)
  have dist: "distinct (map fst d)"
    unfolding d_def using dist0 by (rule distinct_fold_update)
  have zk: "fst ` set (zip ns subs) = set ns"
    using len by (simp add: map_fst_zip flip: set_map)
  have keys: "set (map fst d) = set ns"
    using k0 zk by (simp add: d_def keys_fold_update)
  have "dom (map_of d0) \<subseteq> dom (map_of (rev (zip ns subs)))"
    using k0 zk by (simp add: dom_map_of_conv_image_fst)
  then have m: "map_of d = map_of (rev (zip ns subs))"
    unfolding d_def map_of_fold_update
    by (auto simp: fun_eq_iff map_add_def split: option.splits)
  have z: "d = zip ns subs" if "distinct ns"
  proof -
    have "assign_items d0 (zip ns (map Inr subs)) = Inr (zip ns subs)"
      using assign_items_distinct [of "[]" ns "[]" subs] fold_init_distinct [of ns "[]"]
        that len by (simp add: d0_def)
    with a show ?thesis by simp
  qed
  show ?thesis
    using r dist keys m z by blast
qed

lemma extract_txt_rtf:
  assumes "read_bytes fs p
             = Inr (bstr ''rtfd'' @ version @ enc_directory [bstr ''TXT.rtf''] [enc_leaf payload])"
    and "length version = 4" and "length payload + 8 < 2 ^ 32"
    and "length payload \<noteq> 2147483648"
  shows "extract_rtf_content_from_rtfd fs p = Inr (RBytes payload, [])"
proof -
  have n: "list_all2 (\<lambda>nb n. length nb < 2 ^ 32 \<and> utf8_decode nb = Some n)
             [bstr ''TXT.rtf''] [str ''TXT.rtf'']"
    using utf8_txt by (simp add: bstr_def)
  have l: "read_rtf_item (enc_leaf payload) = Inr (RBytes payload)"
    using read_leaf [of "length payload" payload] assms(3,4) by (simp add: enc_leaf_def)
  have "read_rtf_item (enc_directory [bstr ''TXT.rtf''] [enc_leaf payload] @ [])
          = Inr (RDict (zip [str ''TXT.rtf''] [RBytes payload]))"
    using read_directory_record [OF n, of "[enc_leaf payload]" "[RBytes payload]" "[]"]
      l assms(3)
    by (simp add: enc_directory_def enc_leaf_def)
  then have "read_rtf_item (enc_directory [bstr ''TXT.rtf''] [enc_leaf payload])
          = Inr (RDict [(str ''TXT.rtf'', RBytes payload)])"
    by simp
  moreover have "length (bstr ''rtfd'') = 4"
    by (simp add: bstr_def)
  ultimately show ?thesis
    using assms(1,2) by (simp add: extract_rtf_content_from_rtfd_def)
qed

text \<open>
  Claim C7. A directory record (tag 3) is laid out as the entry count, the \<open>count\<close>
  length-prefixed UTF-8 names, the \<open>count\<close> sizes and the \<open>count\<close> encoded entries,
  each in stream order. The decoder decodes every entry by the same grammar and returns a
  dictionary whose keys are the names, each bound to the decoded entry (to the last one
  when a name occurs twice); when the names are distinct the dictionary is exactly the
  list of the names paired with their decoded entries, in stream order. The top-level
  extraction of a container whose directory has the single entry \<^verbatim>\<open>TXT.rtf\<close>, wrapping
  a leaf, returns the bytes of that leaf and prints nothing.
\<close>

theorem directory_record:
  "(list_all2 (\<lambda>nb n. length nb < 2 ^ 32 \<and> utf8_decode nb = Some n) name_bytes names
      \<and> length raws = length names \<and> length names < 2 ^ 32
      \<and> (\<forall>r\<in>set raws. length r < 2 ^ 32)
      \<and> map read_rtf_item raws = map Inr subs \<longrightarrow>
    (\<exists>d. read_rtf_item (enc_directory name_bytes raws @ rest) = Inr (RDict d)
        \<and> distinct (map fst d) \<and> set (map fst d) = set names
        \<and> map_of d = map_of (rev (zip names subs))
        \<and> (distinct names \<longrightarrow> d = zip names subs)))
   \<and> (read_bytes fs p
         = Inr (bstr ''rtfd'' @ version @ enc_directory [bstr ''TXT.rtf''] [enc_leaf payload])
      \<and> length version = 4 \<and> length payload + 8 < 2 ^ 32
      \<and> length payload \<noteq> 2147483648 \<longrightarrow>
    extract_rtf_content_from_rtfd fs p = Inr (RBytes payload, []))"
  using read_directory_record_general [of name_bytes names raws subs rest]
    extract_txt_rtf [of fs p version payload]
  by blast

theorem directory_record_witness:
  "read_rtf_item
     [3, 0, 0, 0, 2, 0, 0, 0, 1, 0, 0, 0, 97, 1, 0, 0, 0, 98, 9, 0, 0, 0, 8, 0, 0, 0,
      1, 0, 0, 0, 1, 0, 0, 0, 9, 1, 0, 0, 0, 0, 0, 0, 0]
     = Inr (RDict [([97], RBytes [9]), ([98], RBytes [])])
   \<and> extract_rtf_content_from_rtfd
       [([str ''doc''],
         File (bstr ''rtfd'' @ [0, 0, 0, 0]
                 @ enc_directory [bstr ''TXT.rtf''] [enc_leaf (bstr ''hi'')]))]
       [str ''doc'']
     = Inr (RBytes (bstr ''hi''), [])"
proof -
  let ?raws = "[[1, 0, 0, 0, 1, 0, 0, 0, 9], [1, 0, 0, 0, 0, 0, 0, 0]] :: bytes list"
  let ?fs = "[([str ''doc''],
               File (bstr ''rtfd'' @ [0, 0, 0, 0]
                       @ enc_directory [bstr ''TXT.rtf''] [enc_leaf (bstr ''hi'')]))]"
  have h1: "list_all2 (\<lambda>nb n. length nb < 2 ^ 32 \<and> utf8_decode nb = Some n)
              [[97], [98]] [[97], [98]]"
    by simp
  have h2: "map read_rtf_item ?raws = map Inr [RBytes [9], RBytes []]"
    by (simp add: read_rtf_item.simps [of "[1, 0, 0, 0, 1, 0, 0, 0, 9]"]
          read_rtf_item.simps [of "[1, 0, 0, 0, 0, 0, 0, 0]"])
  have s: "enc_directory [[97], [98]] ?raws @ []
             = [3, 0, 0, 0, 2, 0, 0, 0, 1, 0, 0, 0, 97, 1, 0, 0, 0, 98, 9, 0, 0, 0, 8, 0, 0, 0,
                1, 0, 0, 0, 1, 0, 0, 0, 9, 1, 0, 0, 0, 0, 0, 0, 0]"
    by (simp add: enc_directory_def enc_names_def enc_sizes_def le32_def)
  have h3: "read_bytes ?fs [str ''doc'']
              = Inr (bstr ''rtfd'' @ [0, 0, 0, 0]
                       @ enc_directory [bstr ''TXT.rtf''] [enc_leaf (bstr ''hi'')])"
    by (simp add: read_bytes_def lookup_def)
  have h4: "length (bstr ''hi'') + 8 < 2 ^ 32" "length (bstr ''hi'') \<noteq> 2147483648"
    by (simp_all add: bstr_def)
  show ?thesis
    using directory_record [of "[[97], [98]]" "[[97], [98]]" ?raws "[RBytes [9], RBytes []]" "[]"
        ?fs "[str ''doc'']" "[0, 0, 0, 0]" "bstr ''hi''"]
      h1 h2 h3 h4
    unfolding s by auto
qed

section \<open>Properties of the file system\<close>

lemma bind_err_Inr:
  "bind_err r f = Inr y \<longleftrightarrow> (\<exists>x. r = Inr x \<and> f x = Inr y)"
  by (cases r) simp_all

lemma lookup_root [simp]: "lookup fs [] = Some Dir"
  by (simp add: lookup_def)

lemma lookup_update:
  "p \<noteq> [] \<Longrightarrow> lookup (AList.update p v fs) q = (if q = p then Some v else lookup fs q)"
  by (simp add: lookup_def update_conv')

lemma os_mkdir_Inr:
  "os_mkdir fs p = Inr fs' \<longleftrightarrow>
     p \<noteq> [] \<and> lookup fs p = None \<and> lookup fs (butlast p) = Some Dir
     \<and> fs' = AList.update p Dir fs"
  by (cases "p = []")
     (auto simp: os_mkdir_def path_exists_def split: option.splits node.splits)

lemma os_mkdir_lookup:
  "os_mkdir fs p = Inr fs' \<Longrightarrow> lookup fs q = Some n \<Longrightarrow> lookup fs' q = Some n"
  by (auto simp: os_mkdir_Inr lookup_update)

lemma os_mkdir_is_dir:
  "os_mkdir fs p = Inr fs' \<Longrightarrow> lookup fs' p = Some Dir"
  by (auto simp: os_mkdir_Inr lookup_update)

lemma os_makedirs_lookup:
  "os_makedirs fs p = Inr fs' \<Longrightarrow> lookup fs q = Some n \<Longrightarrow> lookup fs' q = Some n"
proof (induction fs p arbitrary: fs' rule: os_makedirs.induct)
  case (1 fs p)
  from "1.prems"(1) obtain fs1 where
    a: "(if p \<noteq> [] \<and> butlast p \<noteq> [] \<and> \<not> path_exists fs (butlast p)
         then os_makedirs fs (butlast p) else Inr fs) = Inr fs1"
    and b: "(case os_mkdir fs1 p of
               Inl e \<Rightarrow> if is_dir fs1 p then Inr fs1 else Inl e
             | Inr fs2 \<Rightarrow> Inr fs2) = Inr fs'"
    by (subst (asm) os_makedirs.simps) (auto simp: bind_err_Inr)
  have l1: "lookup fs1 q = Some n"
  proof (cases "p \<noteq> [] \<and> butlast p \<noteq> [] \<and> \<not> path_exists fs (butlast p)")
    case True
    with a have "os_makedirs fs (butlast p) = Inr fs1" by simp
    with True "1.IH" "1.prems"(2) show ?thesis by blast
  next
    case False
    with a "1.prems"(2) show ?thesis by auto
  qed
  show ?case
  proof (cases "os_mkdir fs1 p")
    case (Inl e)
    with b have "fs' = fs1" by (simp split: if_splits)
    with l1 show ?thesis by simp
  next
    case (Inr fs2)
    with b have "fs' = fs2" by simp
    with Inr l1 show ?thesis by (auto dest: os_mkdir_lookup)
  qed
qed

lemma open_wb_Inr:
  "open_wb fs p = Inr fs' \<longleftrightarrow>
     p \<noteq> [] \<and> lookup fs p \<noteq> Some Dir \<and> lookup fs (butlast p) = Some Dir
     \<and> fs' = AList.update p (File []) fs"
  by (cases "p = []")
     (auto simp: open_wb_def is_dir_def split: option.splits node.splits)

lemma open_wb_lookup:
  "open_wb fs p = Inr fs' \<Longrightarrow>
     p \<noteq> [] \<and> lookup fs' q = (if q = p then Some (File []) else lookup fs q)"
  by (auto simp: open_wb_Inr lookup_update)

lemma write_bytes_lookup:
  "p \<noteq> [] \<Longrightarrow> lookup (write_bytes fs p b) q = (if q = p then Some (File b) else lookup fs q)"
  by (simp add: write_bytes_def lookup_update)

lemma save_plist_result:
  assumes "save_plist lib self fs pl p = Inr fs'"
  obtains b where "\<not> encrypted self" and "p \<noteq> []" and "plist_dumps lib pl = Inr b"
    and "lookup fs' p = Some (File b)"
    and "\<And>q n. q \<noteq> p \<Longrightarrow> lookup fs q = Some n \<Longrightarrow> lookup fs' q = Some n"
proof -
  from assms obtain fs1 where m: "os_makedirs fs (butlast p) = Inr fs1"
    and r1: "(if encrypted self then Inl AttributeError
       else bind_err (open_wb fs1 p) (\<lambda>fs.
            bind_err (plist_dumps lib pl) (\<lambda>b. Inr (write_bytes fs p b)))) = Inr fs'"
    unfolding save_plist_def bind_err_Inr by blast
  from r1 have e: "\<not> encrypted self"
    by (auto split: if_splits)
  with r1 obtain fs2 b where o: "open_wb fs1 p = Inr fs2" and d: "plist_dumps lib pl = Inr b"
    and f: "fs' = write_bytes fs2 p b"
    by (auto simp: bind_err_Inr)
  from o have p: "p \<noteq> []"
    and l2: "\<And>q. lookup fs2 q = (if q = p then Some (File []) else lookup fs1 q)"
    using open_wb_lookup by blast+
  have "lookup fs' p = Some (File b)"
    using f p by (simp add: write_bytes_lookup)
  moreover have "\<And>q n. q \<noteq> p \<Longrightarrow> lookup fs q = Some n \<Longrightarrow> lookup fs' q = Some n"
    using f p l2 m by (auto simp: write_bytes_lookup dest: os_makedirs_lookup)
  ultimately show ?thesis
    using e p d that by blast
qed

lemma save_file_result:
  assumes "save_file self fs data p = Inr fs'"
  shows "p \<noteq> []" and "lookup fs' p = Some (File data)"
    and "\<And>q n. q \<noteq> p \<Longrightarrow> lookup fs q = Some n \<Longrightarrow> lookup fs' q = Some n"
proof -
  from assms obtain fs1 where m: "os_makedirs fs (butlast p) = Inr fs1"
    and r1: "(if encrypted self then Inl AttributeError
       else bind_err (open_wb fs1 p) (\<lambda>fs. Inr (write_bytes fs p data))) = Inr fs'"
    unfolding save_file_def bind_err_Inr by blast
  from r1 have e: "\<not> encrypted self"
    by (auto split: if_splits)
  with r1 obtain fs2 where o: "open_wb fs1 p = Inr fs2"
    and f: "fs' = write_bytes fs2 p data"
    by (auto simp: bind_err_Inr)
  from o have p: "p \<noteq> []"
    and l2: "\<And>q. lookup fs2 q = (if q = p then Some (File []) else lookup fs1 q)"
    using open_wb_lookup by blast+
  show "p \<noteq> []" by (rule p)
  show "lookup fs' p = Some (File data)"
    using f p by (simp add: write_bytes_lookup)
  show "\<And>q n. q \<noteq> p \<Longrightarrow> lookup fs q = Some n \<Longrightarrow> lookup fs' q = Some n"
    using f p l2 m by (auto simp: write_bytes_lookup dest: os_makedirs_lookup)
qed

section \<open>Properties of the store\<close>

lemma add_item_result:
  assumes "add_item lib u self fs name text format = Inr (r, self', fs')"
  shows "r = u \<and> u \<noteq> [] \<and> \<not> encrypted self
     \<and> (\<exists>data b.
          utf8_encode text = Some data
        \<and> self' = self\<lparr>items := AList.update u text (items self),
                       item_plists := AList.update u
                         (item_record lib u name format (sha1_hexdigest data)) (item_plists self)\<rparr>
        \<and> plist_dumps lib (item_record lib u name format (sha1_hexdigest data)) = Inr b
        \<and> lookup fs' (path self @ [str ''pages'', [hd u], u @ str ''.plist'']) = Some (File b)
        \<and> lookup fs' (path self @ [str ''pages'', [hd u], u]) = Some (File data))
     \<and> (\<forall>q n. q \<noteq> path self @ [str ''pages'', [hd u], u @ str ''.plist'']
           \<longrightarrow> q \<noteq> path self @ [str ''pages'', [hd u], u]
           \<longrightarrow> lookup fs q = Some n \<longrightarrow> lookup fs' q = Some n)"
proof -
  from assms obtain h where h: "sha1_hash text = Inr h"
    by (auto simp: add_item_def Let_def bind_err_Inr)
  then obtain data where data: "utf8_encode text = Some data" "h = sha1_hexdigest data"
    by (auto simp: sha1_hash_def split: option.splits)
  from assms h obtain c us where u: "u = c # us"
    by (cases u) (auto simp: add_item_def Let_def)
  let ?pl = "item_record lib u name format h"
  let ?pp = "path self @ [str ''pages'', [c], u @ str ''.plist'']"
  let ?ip = "path self @ [str ''pages'', [c], u]"
  have "bind_err (save_plist lib self fs ?pl ?pp) (\<lambda>fs.
          bind_err (Inr data) (\<lambda>data.
          bind_err (save_file self fs data ?ip) (\<lambda>fs.
            Inr (u, self\<lparr>items := AList.update u text (items self),
                         item_plists := AList.update u ?pl (item_plists self)\<rparr>, fs))))
        = Inr (r, self', fs')"
    using assms h u data(1) by (simp add: add_item_def Let_def item_record_def)
  then obtain fs1 where
    sp: "save_plist lib self fs ?pl ?pp = Inr fs1"
    and sf: "save_file self fs1 data ?ip = Inr fs'"
    and r: "r = u"
    and s: "self' = self\<lparr>items := AList.update u text (items self),
                         item_plists := AList.update u ?pl (item_plists self)\<rparr>"
    by (auto simp: bind_err_Inr)
  have ne: "?pp \<noteq> ?ip"
    by (simp add: str_def)
  from sp obtain b where e: "\<not> encrypted self"
    and b: "plist_dumps lib ?pl = Inr b" "lookup fs1 ?pp = Some (File b)"
    and k: "\<And>q n. q \<noteq> ?pp \<Longrightarrow> lookup fs q = Some n \<Longrightarrow> lookup fs1 q = Some n"
    by (rule save_plist_result) blast
  note F = save_file_result [OF sf]
  have 1: "lookup fs' ?pp = Some (File b)"
    using F(3) [OF ne b(2)] .
  have 2: "\<forall>q n. q \<noteq> ?pp \<longrightarrow> q \<noteq> ?ip \<longrightarrow> lookup fs q = Some n \<longrightarrow> lookup fs' q = Some n"
    using k F(3) by simp
  have 3: "lookup fs' ?ip = Some (File data)"
    using F(2) .
  show ?thesis
    using r u data s b(1) 1 2 3 e by simp
qed

lemma os_makedirs_existing:
  "is_dir fs p \<Longrightarrow> path_exists fs (butlast p) \<Longrightarrow> os_makedirs fs p = Inr fs"
  by (subst os_makedirs.simps)
     (auto simp: os_mkdir_def is_dir_def path_exists_def split: option.splits node.splits)

lemma map_of_update_same: "map_of (AList.update k v al) k = Some v"
  by (simp add: update_conv')

text \<open>
  Claim C4. Whenever \<^verbatim>\<open>add_item(name, text, type)\<close> returns, it returns the identifier
  it drew, and the metadata record kept in memory under that identifier is the record
  whose serialisation the file at the identifier's metadata path holds (so that loading the
  file gives what \<^verbatim>\<open>plistlib\<close> reads back from what it wrote). In that record \<^verbatim>\<open>uuid\<close>
  is the returned identifier, \<^verbatim>\<open>key\<close> is the lowercase name and \<^verbatim>\<open>dataHash\<close> is the SHA-1
  hex digest of the UTF-8 encoding of the text.
\<close>

theorem add_item_metadata:
  "add_item lib uuid4 self fs name text format = Inr (r, self', fs') \<longrightarrow>
     r = uuid4
     \<and> (\<exists>pl pp b data.
          item_plist self' r = Inr pl
        \<and> item_plist_path self' r = Inr pp
        \<and> read_bytes fs' pp = Inr b
        \<and> plist_dumps lib pl = Inr b
        \<and> load_plist lib self' fs' pp = plist_loads lib b
        \<and> getitem pl (str ''uuid'') = Inr (PStr r)
        \<and> getitem pl (str ''key'') = Inr (PStr (str_lower lib name))
        \<and> utf8_encode text = Some data
        \<and> getitem pl (str ''dataHash'') = Inr (PStr (sha1_hexdigest data)))"
proof
  assume a: "add_item lib uuid4 self fs name text format = Inr (r, self', fs')"
  from add_item_result [OF a] obtain data b where
    r: "r = uuid4" and ne: "uuid4 \<noteq> []" and e: "\<not> encrypted self"
    and d: "utf8_encode text = Some data"
    and s: "self' = self\<lparr>items := AList.update uuid4 text (items self),
              item_plists := AList.update uuid4
                (item_record lib uuid4 name format (sha1_hexdigest data)) (item_plists self)\<rparr>"
    and b: "plist_dumps lib (item_record lib uuid4 name format (sha1_hexdigest data)) = Inr b"
    and l: "lookup fs' (path self @ [str ''pages'', [hd uuid4], uuid4 @ str ''.plist''])
              = Some (File b)"
    by blast
  let ?pl = "item_record lib uuid4 name format (sha1_hexdigest data)"
  let ?pp = "path self @ [str ''pages'', [hd uuid4], uuid4 @ str ''.plist'']"
  have 1: "item_plist self' r = Inr ?pl"
    using r s by (simp add: item_plist_def map_of_update_same)
  have 2: "item_plist_path self' r = Inr ?pp"
    using r s ne by (cases uuid4) (simp_all add: item_plist_path_def)
  have 3: "read_bytes fs' ?pp = Inr b"
    using l by (simp add: read_bytes_def)
  have 4: "load_plist lib self' fs' ?pp = plist_loads lib b"
    using 3 e s by (simp add: load_plist_def)
  have 5: "getitem ?pl (str ''uuid'') = Inr (PStr r)"
    "getitem ?pl (str ''key'') = Inr (PStr (str_lower lib name))"
    "getitem ?pl (str ''dataHash'') = Inr (PStr (sha1_hexdigest data))"
    using r by (simp_all add: getitem_def item_record_def str_def)
  show "r = uuid4
     \<and> (\<exists>pl pp b data.
          item_plist self' r = Inr pl
        \<and> item_plist_path self' r = Inr pp
        \<and> read_bytes fs' pp = Inr b
        \<and> plist_dumps lib pl = Inr b
        \<and> load_plist lib self' fs' pp = plist_loads lib b
        \<and> getitem pl (str ''uuid'') = Inr (PStr r)
        \<and> getitem pl (str ''key'') = Inr (PStr (str_lower lib name))
        \<and> utf8_encode text = Some data
        \<and> getitem pl (str ''dataHash'') = Inr (PStr (sha1_hexdigest data)))"
    using r 1 2 3 4 5 b d by blast
qed

lemma add_item_run:
  "add_item (table_lib [(note_xml, note_record)]) (str ''a1'') (new_datastore [str ''s''])
     empty_store_fs (str ''Hi'') (str ''yo'') (str ''t'')
   = Inr (str ''a1'',
          (new_datastore [str ''s''])\<lparr>items := [(str ''a1'', str ''yo'')],
                                      item_plists := [(str ''a1'', note_record)]\<rparr>,
          empty_store_fs
            @ [([str ''s'', str ''pages'', str ''a'', str ''a1.plist''], File note_xml),
               ([str ''s'', str ''pages'', str ''a'', str ''a1''], File (bstr ''yo''))])"
  by (simp add: add_item_def Let_def sha1_hash_def utf8_char_def save_plist_def save_file_def
        os_makedirs_existing open_wb_def write_bytes_def is_dir_def path_exists_def lookup_def
        table_lib_def ascii_lower_def note_record_def empty_store_fs_def new_datastore_def
        str_def bstr_def)

theorem add_item_metadata_witness:
  "add_item (table_lib [(note_xml, note_record)]) (str ''a1'') (new_datastore [str ''s''])
     empty_store_fs (str ''Hi'') (str ''yo'') (str ''t'')
   = Inr (str ''a1'',
          (new_datastore [str ''s''])\<lparr>items := [(str ''a1'', str ''yo'')],
                                      item_plists := [(str ''a1'', note_record)]\<rparr>,
          empty_store_fs
            @ [([str ''s'', str ''pages'', str ''a'', str ''a1.plist''], File note_xml),
               ([str ''s'', str ''pages'', str ''a'', str ''a1''], File (bstr ''yo''))])
   \<and> read_bytes
        (empty_store_fs
            @ [([str ''s'', str ''pages'', str ''a'', str ''a1.plist''], File note_xml),
               ([str ''s'', str ''pages'', str ''a'', str ''a1''], File (bstr ''yo''))])
        [str ''s'', str ''pages'', str ''a'', str ''a1.plist''] = Inr note_xml
   \<and> plist_loads (table_lib [(note_xml, note_record)]) note_xml = Inr note_record
   \<and> getitem note_record (str ''uuid'') = Inr (PStr (str ''a1''))
   \<and> getitem note_record (str ''key'') = Inr (PStr (str ''hi''))
   \<and> getitem note_record (str ''dataHash'') = Inr (PStr (sha1_hexdigest (bstr ''yo'')))"
  using add_item_run
    add_item_metadata [of "table_lib [(note_xml, note_record)]" "str ''a1''"
      "new_datastore [str ''s'']" empty_store_fs "str ''Hi''" "str ''yo''" "str ''t''"
      "str ''a1''"
      "(new_datastore [str ''s''])\<lparr>items := [(str ''a1'', str ''yo'')],
                                      item_plists := [(str ''a1'', note_record)]\<rparr>"
      "empty_store_fs
            @ [([str ''s'', str ''pages'', str ''a'', str ''a1.plist''], File note_xml),
               ([str ''s'', str ''pages'', str ''a'', str ''a1''], File (bstr ''yo''))]"]
  by (simp add: read_bytes_def lookup_def empty_store_fs_def table_lib_def getitem_def
        note_record_def str_def)

lemma rfind_last:
  assumes "c \<notin> set t"
  shows "rfind (u @ c # t) c = Some (length u)"
proof -
  have "takeWhile (\<lambda>x. x \<noteq> c) (rev t @ c # rev u) = rev t"
    using assms by (auto simp: takeWhile_tail takeWhile_eq_all_conv)
  then show ?thesis
    by (simp add: rfind_def)
qed

lemma stem_plist:
  assumes "u \<noteq> []"
  shows "stem (d @ [u @ str ''.plist'']) = u"
proof -
  have "u @ str ''.plist'' = u @ 46 # str ''plist''"
    by (simp add: str_def)
  moreover have "46 \<notin> set (str ''plist'')"
    by (simp add: str_def)
  ultimately have "rfind (u @ str ''.plist'') 46 = Some (length u)"
    by (simp add: rfind_last)
  then show ?thesis
    using assms by (simp add: stem_def str_def)
qed

lemma open_checks_result:
  assumes "open_checks lib fs p pw im = Inr ds"
  shows "path ds = p" and "\<not> encrypted ds" and "is_dir fs (p @ [str ''pages''])"
    and "item_plists ds = []" and "items ds = []"
  using assms
  by (auto simp: open_checks_def Let_def bind_err_Inr new_datastore_def split: if_splits)

lemma load_items_sound:
  assumes "load_items ds fs us its out = Inr (its', out')"
    and "map_of its' u = Some text"
  shows "map_of its u = Some text
     \<or> (u \<in> set us \<and> (\<exists>pl uti ip v pr.
           item_plist ds u = Inr pl \<and> getitem pl (str ''uti'') = Inr uti
         \<and> \<not> eq_str uti (str ''com.fm.page-alias'')
         \<and> \<not> eq_str uti (str ''com.fm.file-alias'')
         \<and> item_path ds u = Inr ip \<and> path_exists fs ip
         \<and> load_file ds fs ip = Inr (v, pr) \<and> decode v = Inr text))"
  using assms
proof (induction us arbitrary: its out)
  case Nil
  then show ?case by simp
next
  case (Cons x us)
  from Cons.prems(1) obtain pl uti where
    pl: "item_plist ds x = Inr pl" and uti: "getitem pl (str ''uti'') = Inr uti"
    by (auto simp: bind_err_Inr)
  show ?case
  proof (cases "eq_str uti (str ''com.fm.page-alias'') \<or> eq_str uti (str ''com.fm.file-alias'')")
    case True
    with Cons.prems(1) pl uti have "load_items ds fs us its out = Inr (its', out')"
      by (auto split: if_splits)
    from Cons.IH [OF this Cons.prems(2)] show ?thesis by auto
  next
    case False
    with Cons.prems(1) pl uti obtain ip v pr t where
      ip: "item_path ds x = Inr ip" and ex: "path_exists fs ip"
      and lf: "load_file ds fs ip = Inr (v, pr)" and dc: "decode v = Inr t"
      and rest: "load_items ds fs us (AList.update x t its) (out @ pr) = Inr (its', out')"
      by (auto simp: bind_err_Inr split: if_splits)
    from Cons.IH [OF rest Cons.prems(2)] show ?thesis
    proof
      assume m: "map_of (AList.update x t its) u = Some text"
      show ?thesis
      proof (cases "u = x")
        case True
        with m have "text = t" by (simp add: update_conv')
        with True pl uti False ip ex lf dc show ?thesis by auto
      next
        case False
        with m show ?thesis by (simp add: update_conv')
      qed
    next
      assume "u \<in> set us \<and> (\<exists>pl uti ip v pr.
           item_plist ds u = Inr pl \<and> getitem pl (str ''uti'') = Inr uti
         \<and> \<not> eq_str uti (str ''com.fm.page-alias'')
         \<and> \<not> eq_str uti (str ''com.fm.file-alias'')
         \<and> item_path ds u = Inr ip \<and> path_exists fs ip
         \<and> load_file ds fs ip = Inr (v, pr) \<and> decode v = Inr text)"
      then show ?thesis by auto
    qed
  qed
qed

lemma open_items_result:
  assumes "open_items lib fs ds0 ps = Inr (ds, out)"
  obtains tbl out1 its out2 where
    "load_item_plists lib ds0 fs ps [] [] = Inr (tbl, out1)"
    and "load_items (ds0\<lparr>item_plists := tbl\<rparr>) fs (map fst tbl) [] [] = Inr (its, out2)"
    and "ds = ds0\<lparr>item_plists := tbl, items := its\<rparr>" and "out = out1 @ out2"
  using assms
  by (auto simp: open_items_def Let_def bind_err_Inr item_uuids_def)

lemma open_store_result:
  assumes "open_store lib fs p pw im = Inr (ds, out)"
  obtains ds0 ps where "open_checks lib fs p pw im = Inr ds0"
    and "get_plists fs (p @ [str ''pages'']) = Inr ps"
    and "open_items lib fs ds0 ps = Inr (ds, out)"
proof -
  from assms obtain ds0 ps where c: "open_checks lib fs p pw im = Inr ds0"
    and g: "get_plists fs (path ds0 @ [str ''pages'']) = Inr ps"
    and i: "open_items lib fs ds0 ps = Inr (ds, out)"
    by (auto simp: open_store_def bind_err_Inr)
  from c have "path ds0 = p" by (rule open_checks_result)
  with c g i that show ?thesis by simp
qed

lemma open_store_items:
  assumes "open_store lib fs p pw im = Inr (ds, out)"
    and "map_of (items ds) u = Some text"
  shows "\<exists>pl uti ip v pr.
           item_plist ds u = Inr pl \<and> getitem pl (str ''uti'') = Inr uti
         \<and> \<not> eq_str uti (str ''com.fm.page-alias'')
         \<and> \<not> eq_str uti (str ''com.fm.file-alias'')
         \<and> item_path ds u = Inr ip \<and> path_exists fs ip
         \<and> load_file ds fs ip = Inr (v, pr) \<and> decode v = Inr text"
proof -
  from assms(1) obtain ds0 ps where c: "open_checks lib fs p pw im = Inr ds0"
    and i: "open_items lib fs ds0 ps = Inr (ds, out)"
    by (rule open_store_result)
  from i obtain tbl its out2 where
    l: "load_items (ds0\<lparr>item_plists := tbl\<rparr>) fs (map fst tbl) [] [] = Inr (its, out2)"
    and d: "ds = ds0\<lparr>item_plists := tbl, items := its\<rparr>"
    by (rule open_items_result)
  have m: "map_of its u = Some text"
    using assms(2) d by simp
  have eq: "item_plist ds = item_plist (ds0\<lparr>item_plists := tbl\<rparr>)"
    "item_path ds = item_path (ds0\<lparr>item_plists := tbl\<rparr>)"
    "load_file ds = load_file (ds0\<lparr>item_plists := tbl\<rparr>)"
    using d by (auto simp: fun_eq_iff item_plist_def item_path_def load_file_def
                    split: list.splits)
  from load_items_sound [OF l m] show ?thesis
    unfolding eq by auto
qed

lemma xml_distinct:
  "storeinfo5_xml \<noteq> props0_xml" "storeinfo5_xml \<noteq> note_xml" "props0_xml \<noteq> note_xml"
  "props0_xml \<noteq> storeinfo5_xml" "note_xml \<noteq> storeinfo5_xml" "note_xml \<noteq> props0_xml"
  by (simp_all add: storeinfo5_xml_def props0_xml_def note_xml_def bstr_def)

lemma demo_loads:
  "plist_loads demo_lib storeinfo5_xml = Inr storeinfo5"
  "plist_loads demo_lib props0_xml = Inr props0"
  "plist_loads demo_lib note_xml = Inr note_record"
  by (simp_all add: demo_lib_def table_lib_def xml_distinct)

lemma demo_ds_fields:
  "path demo_ds0 = [str ''s'']" "encrypted demo_ds0 = False"
  "path demo_ds = [str ''s'']" "encrypted demo_ds = False"
  "item_plists demo_ds = [(str ''a1'', note_record)]"
  by (simp_all add: demo_ds_def demo_ds0_def new_datastore_def)

lemma demo_open_checks:
  "open_checks demo_lib (demo_store c) [str ''s''] None False = Inr demo_ds0"
  by (simp add: open_checks_def Let_def new_datastore_def path_exists_def is_dir_def lookup_def
        demo_store_def read_bytes_def load_plist_def demo_loads getitem_def storeinfo5_def
        demo_ds0_def str_def)

lemma demo_get_plists:
  "get_plists (demo_store c) [str ''s'', str ''pages'']
     = Inr [[str ''s'', str ''pages'', str ''a'', str ''a1.plist'']]"
  by (simp add: get_plists_def os_listdir_def lookup_def demo_store_def is_dir_def
        endswith_def str_def)

lemma demo_stem: "stem [str ''s'', str ''pages'', str ''a'', str ''a1.plist''] = str ''a1''"
  using stem_plist [of "str ''a1''" "[str ''s'', str ''pages'', str ''a'']"]
  by (simp add: str_def)

lemma demo_load_item_plists:
  "load_item_plists demo_lib demo_ds0 (demo_store c)
     [[str ''s'', str ''pages'', str ''a'', str ''a1.plist'']] [] []
     = Inr ([(str ''a1'', note_record)], [])"
proof -
  have "load_plist demo_lib demo_ds0 (demo_store c)
          [str ''s'', str ''pages'', str ''a'', str ''a1.plist''] = Inr note_record"
    by (simp add: load_plist_def demo_ds_fields read_bytes_def lookup_def demo_store_def
          demo_loads str_def)
  then show ?thesis
    by (simp add: Let_def demo_stem)
qed

lemma demo_load_items:
  "load_items demo_ds (demo_store c) [str ''a1''] [] []
     = bind_err (load_file demo_ds (demo_store c)
                    [str ''s'', str ''pages'', str ''a'', str ''a1''])
         (\<lambda>(v, printed). bind_err (decode v) (\<lambda>text. Inr ([(str ''a1'', text)], printed)))"
proof -
  have 1: "item_plist demo_ds (str ''a1'') = Inr note_record"
    by (simp add: item_plist_def demo_ds_fields)
  have 2: "getitem note_record (str ''uti'') = Inr (PStr (str ''t''))"
    by (simp add: getitem_def note_record_def str_def)
  have 3: "str ''t'' \<noteq> str ''com.fm.page-alias''" "str ''t'' \<noteq> str ''com.fm.file-alias''"
    by (simp_all add: str_def)
  have 4: "item_path demo_ds (str ''a1'') = Inr [str ''s'', str ''pages'', str ''a'', str ''a1'']"
    by (simp add: item_path_def demo_ds_fields str_def)
  have 5: "path_exists (demo_store c) [str ''s'', str ''pages'', str ''a'', str ''a1'']"
    by (simp add: path_exists_def lookup_def demo_store_def str_def)
  show ?thesis
    by (simp add: 1 2 3 4 5)
qed

lemma demo_open:
  "open_store demo_lib (demo_store c) [str ''s''] None False
     = bind_err (load_file demo_ds (demo_store c) [str ''s'', str ''pages'', str ''a'', str ''a1''])
         (\<lambda>(v, printed). bind_err (decode v)
            (\<lambda>text. Inr (demo_ds\<lparr>items := [(str ''a1'', text)]\<rparr>, printed)))"
proof -
  have "open_store demo_lib (demo_store c) [str ''s''] None False
      = bind_err (load_items demo_ds (demo_store c) [str ''a1''] [] [])
          (\<lambda>(its, out2). Inr (demo_ds\<lparr>items := its\<rparr>, out2))"
    by (simp add: open_store_def demo_open_checks demo_ds_fields demo_get_plists
          open_items_def demo_load_item_plists Let_def item_uuids_def
          demo_ds_def [symmetric] del: load_items.simps load_item_plists.simps)
  also have "\<dots> = bind_err (load_file demo_ds (demo_store c)
                            [str ''s'', str ''pages'', str ''a'', str ''a1''])
         (\<lambda>(v, printed). bind_err (decode v)
            (\<lambda>text. Inr (demo_ds\<lparr>items := [(str ''a1'', text)]\<rparr>, printed)))"
    unfolding demo_load_items
    by (simp add: bind_err_def split: sum.splits prod.splits)
  finally show ?thesis .
qed

lemma open_store_path:
  assumes "open_store lib fs p pw im = Inr (ds, out)"
  shows "path ds = p" and "\<not> encrypted ds"
proof -
  from assms obtain ds0 ps where c: "open_checks lib fs p pw im = Inr ds0"
    and i: "open_items lib fs ds0 ps = Inr (ds, out)"
    by (rule open_store_result)
  from i obtain tbl its where d: "ds = ds0\<lparr>item_plists := tbl, items := its\<rparr>"
    by (rule open_items_result)
  show "path ds = p" "\<not> encrypted ds"
    using d open_checks_result(1,2) [OF c] by simp_all
qed

lemma item_path_nonempty:
  "item_path self u = Inr ip \<Longrightarrow> u \<noteq> [] \<and> ip = path self @ [str ''pages'', [hd u], u]"
  by (cases u) (simp_all add: item_path_def)

lemma decode_Inr:
  "decode v = Inr text \<longleftrightarrow> (\<exists>b. v = RBytes b \<and> utf8_decode b = Some text)"
  by (cases v) (auto simp: decode_def split: option.splits)

lemma extract_bytes:
  assumes "extract_rtf_content_from_rtfd fs ip = Inr (RBytes b, pr)"
    and "read_bytes fs ip = Inr content"
  shows "take 4 content = bstr ''rtfd''
     \<and> (\<exists>d. read_rtf_item (drop 4 (drop 4 content)) = Inr (RDict d)
            \<and> map_of d (str ''TXT.rtf'') = Some (RBytes b))"
proof -
  have m: "take 4 content = bstr ''rtfd''"
    using assms by (auto simp: extract_rtf_content_from_rtfd_def split: if_splits)
  from assms m have h:
    "bind_err (read_rtf_item (drop 4 (drop 4 content))) (\<lambda>contents.
         case contents of
           RDict d \<Rightarrow>
             (case map_of d (str ''TXT.rtf'') of
                Some v \<Rightarrow> Inr (v, [])
              | None \<Rightarrow> Inr (RNone, [str ''Could not find RTF.rtf in RTFD file.'']))
         | _ \<Rightarrow> Inr (RNone, [])) = Inr (RBytes b, pr)"
    by (simp add: extract_rtf_content_from_rtfd_def)
  show ?thesis
  proof (cases "read_rtf_item (drop 4 (drop 4 content))")
    case (Inl e)
    with h show ?thesis by simp
  next
    case (Inr contents)
    show ?thesis
    proof (cases contents)
      case (RDict d)
      with h Inr have "map_of d (str ''TXT.rtf'') = Some (RBytes b)"
        by (simp split: option.splits)
      with Inr RDict m show ?thesis by simp
    next
      case (RBytes x)
      with h Inr show ?thesis by simp
    next
      case RNone
      with h Inr show ?thesis by simp
    qed
  qed
qed

lemma load_file_routing:
  assumes "load_file ds fs ip = Inr (v, pr)" and "decode v = Inr text"
  shows "\<exists>content. read_bytes fs ip = Inr content
     \<and> (if length content > 4 \<and> take 4 content = bstr ''rtfd''
        then \<exists>d b. read_rtf_item (drop 4 (drop 4 content)) = Inr (RDict d)
               \<and> map_of d (str ''TXT.rtf'') = Some (RBytes b) \<and> utf8_decode b = Some text
        else utf8_decode content = Some text)"
proof -
  from assms(2) obtain b where v: "v = RBytes b" and b: "utf8_decode b = Some text"
    by (auto simp: decode_Inr)
  from assms(1) obtain content where c: "read_bytes fs ip = Inr content"
    and r: "(if length content > 4 \<and> take 4 content = bstr ''rtfd''
             then extract_rtf_content_from_rtfd fs ip
             else Inr (RBytes content, [])) = Inr (v, pr)"
    by (auto simp: load_file_def bind_err_Inr split: if_splits)
  show ?thesis
  proof (cases "length content > 4 \<and> take 4 content = bstr ''rtfd''")
    case True
    with r v have "extract_rtf_content_from_rtfd fs ip = Inr (RBytes b, pr)" by simp
    from extract_bytes [OF this c] True b c show ?thesis by auto
  next
    case False
    with r v b c show ?thesis by auto
  qed
qed

lemma load_items_keeps:
  assumes "load_items ds fs us its out = Inr (its', out')" and "map_of its u = Some x"
  shows "\<exists>y. map_of its' u = Some y"
  using assms
proof (induction us arbitrary: its out x)
  case Nil
  then show ?case by simp
next
  case (Cons a us)
  from Cons.prems(1) obtain its1 out1 where
    rest: "load_items ds fs us its1 out1 = Inr (its', out')"
    and its1: "its1 = its \<or> (\<exists>t. its1 = AList.update a t its)"
    by (auto simp: bind_err_Inr split: if_splits)
  from its1 Cons.prems(2) obtain x1 where "map_of its1 u = Some x1"
    by (cases "u = a") (auto simp: update_conv')
  from Cons.IH [OF rest this] show ?case .
qed

lemma load_items_complete:
  assumes "load_items ds fs us its out = Inr (its', out')"
    and "u \<in> set us" and "item_plist ds u = Inr pl"
    and "getitem pl (str ''uti'') = Inr uti"
    and "\<not> eq_str uti (str ''com.fm.page-alias'')"
    and "\<not> eq_str uti (str ''com.fm.file-alias'')"
  shows "\<exists>text. map_of its' u = Some text"
  using assms(1,2)
proof (induction us arbitrary: its out)
  case Nil
  then show ?case by simp
next
  case (Cons a us)
  show ?case
  proof (cases "u = a")
    case True
    with Cons.prems(1) assms(3-6) obtain t pr where
      "load_items ds fs us (AList.update u t its) (out @ pr) = Inr (its', out')"
      by (auto simp: bind_err_Inr split: if_splits)
    then show ?thesis
      by (rule load_items_keeps) (simp add: update_conv')
  next
    case False
    from Cons.prems(1) obtain its1 out1 where
      rest: "load_items ds fs us its1 out1 = Inr (its', out')"
      by (auto simp: bind_err_Inr split: if_splits)
    from False Cons.prems(2) have "u \<in> set us" by simp
    from Cons.IH [OF rest this] show ?thesis .
  qed
qed

lemma open_store_complete:
  assumes "open_store lib fs p pw im = Inr (ds, out)"
    and "item_plist ds u = Inr pl"
    and "getitem pl (str ''uti'') = Inr uti"
    and "\<not> eq_str uti (str ''com.fm.page-alias'')"
    and "\<not> eq_str uti (str ''com.fm.file-alias'')"
  shows "\<exists>text. map_of (items ds) u = Some text"
proof -
  from assms(1) obtain ds0 ps where i: "open_items lib fs ds0 ps = Inr (ds, out)"
    by (rule open_store_result)
  from i obtain tbl its out2 where
    l: "load_items (ds0\<lparr>item_plists := tbl\<rparr>) fs (map fst tbl) [] [] = Inr (its, out2)"
    and d: "ds = ds0\<lparr>item_plists := tbl, items := its\<rparr>"
    by (rule open_items_result)
  have ip: "item_plist (ds0\<lparr>item_plists := tbl\<rparr>) u = Inr pl"
    using assms(2) d by (simp add: item_plist_def)
  then have "u \<in> set (map fst tbl)"
    by (force simp: item_plist_def split: option.splits dest: map_of_SomeD)
  from load_items_complete [OF l this ip assms(3-5)] d show ?thesis by simp
qed

lemma demo_read:
  "read_bytes (demo_store c) [str ''s'', str ''pages'', str ''a'', str ''a1''] = Inr c"
  by (simp add: read_bytes_def lookup_def demo_store_def str_def)

lemma demo_load_file:
  "load_file demo_ds (demo_store c) [str ''s'', str ''pages'', str ''a'', str ''a1'']
     = (if length c > 4 \<and> take 4 c = bstr ''rtfd''
        then extract_rtf_content_from_rtfd (demo_store c)
               [str ''s'', str ''pages'', str ''a'', str ''a1'']
        else Inr (RBytes c, []))"
  by (simp add: load_file_def demo_ds_fields demo_read)


lemma demo_open_magic_only:
  "open_store demo_lib (demo_store (bstr ''rtfd'')) [str ''s''] None False
     = Inr (demo_ds\<lparr>items := [(str ''a1'', str ''rtfd'')]\<rparr>, [])"
proof -
  have "length (bstr ''rtfd'') = 4" "decode (RBytes (bstr ''rtfd'')) = Inr (str ''rtfd'')"
    by (simp_all add: decode_def bstr_def str_def)
  then show ?thesis
    by (simp add: demo_open demo_load_file)
qed

lemma demo_extract_magic_only:
  "extract_rtf_content_from_rtfd (demo_store (bstr ''rtfd''))
     [str ''s'', str ''pages'', str ''a'', str ''a1''] = Inr (RNone, [])"
proof -
  have m: "drop 4 (drop 4 (bstr ''rtfd'')) = []" "take 4 (bstr ''rtfd'') = bstr ''rtfd''"
    by (simp_all add: bstr_def)
  show ?thesis
    by (simp add: extract_rtf_content_from_rtfd_def demo_read m read_rtf_item.simps [of "[]"]
          del: drop_drop)
qed

lemma rtfd_container_magic:
  "length (rtfd_container name payload) > 4"
  "take 4 (rtfd_container name payload) = bstr ''rtfd''"
  "drop 4 (drop 4 (rtfd_container name payload)) = enc_directory [name] [enc_leaf payload]"
  by (simp_all add: rtfd_container_def bstr_def)

lemma demo_open_container:
  "open_store demo_lib (demo_store (rtfd_container (bstr ''TXT.rtf'') (bstr ''hi'')))
     [str ''s''] None False
     = Inr (demo_ds\<lparr>items := [(str ''a1'', str ''hi'')]\<rparr>, [])"
proof -
  let ?c = "rtfd_container (bstr ''TXT.rtf'') (bstr ''hi'')"
  have e: "extract_rtf_content_from_rtfd (demo_store ?c)
             [str ''s'', str ''pages'', str ''a'', str ''a1''] = Inr (RBytes (bstr ''hi''), [])"
    by (rule extract_txt_rtf [where version = "[0, 0, 0, 0]"])
       (simp_all add: demo_read rtfd_container_def bstr_def)
  have d: "decode (RBytes (bstr ''hi'')) = Inr (str ''hi'')"
    by (simp add: decode_def bstr_def str_def)
  show ?thesis
    by (simp add: demo_open demo_load_file rtfd_container_magic e d)
qed

lemma demo_open_bad_tag:
  "open_store demo_lib (demo_store rtfd_bad_tag) [str ''s''] None False = Inl AttributeError"
proof -
  have m: "length rtfd_bad_tag > 4" "take 4 rtfd_bad_tag = bstr ''rtfd''"
    "drop 4 (drop 4 rtfd_bad_tag) = [2, 0, 0, 0]"
    by (simp_all add: rtfd_bad_tag_def bstr_def)
  have e: "extract_rtf_content_from_rtfd (demo_store rtfd_bad_tag)
             [str ''s'', str ''pages'', str ''a'', str ''a1''] = Inr (RNone, [])"
    by (simp add: extract_rtf_content_from_rtfd_def demo_read m
          read_rtf_item.simps [of "[2, 0, 0, 0]"] del: drop_drop)
  show ?thesis
    by (simp add: demo_open demo_load_file m e decode_def)
qed

lemma demo_open_no_txt:
  "open_store demo_lib (demo_store (rtfd_container (bstr ''1.png'') (bstr ''hi'')))
     [str ''s''] None False = Inl AttributeError"
proof -
  let ?c = "rtfd_container (bstr ''1.png'') (bstr ''hi'')"
  have n: "list_all2 (\<lambda>nb n. length nb < 2 ^ 32 \<and> utf8_decode nb = Some n)
             [bstr ''1.png''] [str ''1.png'']"
    by (simp add: bstr_def str_def)
  have lf: "read_rtf_item (enc_leaf (bstr ''hi'')) = Inr (RBytes (bstr ''hi''))"
    using read_leaf [of "length (bstr ''hi'')" "bstr ''hi''"]
    by (simp add: enc_leaf_def bstr_def)
  have "read_rtf_item (enc_directory [bstr ''1.png''] [enc_leaf (bstr ''hi'')] @ [])
          = Inr (RDict (zip [str ''1.png''] [RBytes (bstr ''hi'')]))"
    using read_directory_record [OF n, of "[enc_leaf (bstr ''hi'')]" "[RBytes (bstr ''hi'')]" "[]"] lf
    by (simp add: enc_directory_def enc_leaf_def bstr_def)
  then have r: "read_rtf_item (enc_directory [bstr ''1.png''] [enc_leaf (bstr ''hi'')])
          = Inr (RDict [(str ''1.png'', RBytes (bstr ''hi''))])"
    by simp
  have ne: "str ''TXT.rtf'' \<noteq> str ''1.png''"
    by (simp add: str_def)
  have e: "extract_rtf_content_from_rtfd (demo_store ?c)
             [str ''s'', str ''pages'', str ''a'', str ''a1'']
           = Inr (RNone, [str ''Could not find RTF.rtf in RTFD file.''])"
    by (simp add: extract_rtf_content_from_rtfd_def demo_read rtfd_container_magic r ne
          del: drop_drop)
  show ?thesis
    by (simp add: demo_open demo_load_file rtfd_container_magic e decode_def)
qed

text \<open>
  Claim C9, as stated, fails at the boundary. The content of the item below is exactly the
  four magic bytes. It begins with the magic marker, yet \<^verbatim>\<open>open\<close> does not route it through
  the decoder: the item's text is the direct UTF-8 decoding \<^verbatim>\<open>rtfd\<close>, while the extraction
  of the rich-text sub-stream from these bytes yields \<^verbatim>\<open>None\<close>, which has no text.
\<close>

theorem magic_only_counterexample:
  "take 4 (bstr ''rtfd'') = bstr ''rtfd''
   \<and> open_store demo_lib (demo_store (bstr ''rtfd'')) [str ''s''] None False
       = Inr (demo_ds\<lparr>items := [(str ''a1'', str ''rtfd'')]\<rparr>, [])
   \<and> extract_rtf_content_from_rtfd (demo_store (bstr ''rtfd''))
         [str ''s'', str ''pages'', str ''a'', str ''a1''] = Inr (RNone, [])
   \<and> decode RNone = Inl AttributeError"
  by (simp add: demo_open_magic_only demo_extract_magic_only decode_def) (simp add: bstr_def)

text \<open>
  Claim C9, amended. For every item that \<^verbatim>\<open>open\<close> loads, let \<open>content\<close> be the bytes of its
  content file. If \<open>content\<close> is longer than four bytes and begins with the magic marker,
  the bytes after the marker and the 4-byte version field are decoded as a composite record,
  the result is a directory, and the item's text is the UTF-8 decoding of the byte string
  bound to \<^verbatim>\<open>TXT.rtf\<close> in it. Otherwise, and in particular when \<open>content\<close> is exactly the
  four magic bytes, the item's text is the UTF-8 decoding of \<open>content\<close> itself.
\<close>

theorem content_routing:
  "open_store lib fs p pw im = Inr (ds, out) \<and> map_of (items ds) uuid = Some body \<longrightarrow>
     (\<exists>content.
        read_bytes fs (p @ [str ''pages'', [hd uuid], uuid]) = Inr content
      \<and> (if length content > 4 \<and> take 4 content = bstr ''rtfd''
         then \<exists>d b. read_rtf_item (drop 4 (drop 4 content)) = Inr (RDict d)
                \<and> map_of d (str ''TXT.rtf'') = Some (RBytes b) \<and> utf8_decode b = Some body
         else utf8_decode content = Some body))"
proof
  assume o: "open_store lib fs p pw im = Inr (ds, out) \<and> map_of (items ds) uuid = Some body"
  then obtain ip v pr where ip: "item_path ds uuid = Inr ip"
    and lf: "load_file ds fs ip = Inr (v, pr)" and dc: "decode v = Inr body"
    using open_store_items [of lib fs p pw im ds out uuid body] by blast
  from o have "path ds = p"
    using open_store_path(1) by blast
  with item_path_nonempty [OF ip] have "ip = p @ [str ''pages'', [hd uuid], uuid]"
    by simp
  with load_file_routing [OF lf dc]
  show "\<exists>content.
        read_bytes fs (p @ [str ''pages'', [hd uuid], uuid]) = Inr content
      \<and> (if length content > 4 \<and> take 4 content = bstr ''rtfd''
         then \<exists>d b. read_rtf_item (drop 4 (drop 4 content)) = Inr (RDict d)
                \<and> map_of d (str ''TXT.rtf'') = Some (RBytes b) \<and> utf8_decode b = Some body
         else utf8_decode content = Some body)"
    by simp
qed

theorem content_routing_witness:
  "open_store demo_lib (demo_store (rtfd_container (bstr ''TXT.rtf'') (bstr ''hi'')))
     [str ''s''] None False
     = Inr (demo_ds\<lparr>items := [(str ''a1'', str ''hi'')]\<rparr>, [])
   \<and> read_rtf_item (drop 4 (drop 4 (rtfd_container (bstr ''TXT.rtf'') (bstr ''hi''))))
       = Inr (RDict [(str ''TXT.rtf'', RBytes (bstr ''hi''))])
   \<and> utf8_decode (bstr ''hi'') = Some (str ''hi'')
   \<and> open_store demo_lib (demo_store (bstr ''rtfd'')) [str ''s''] None False
       = Inr (demo_ds\<lparr>items := [(str ''a1'', str ''rtfd'')]\<rparr>, [])
   \<and> utf8_decode (bstr ''rtfd'') = Some (str ''rtfd'')"
proof -
  let ?c = "rtfd_container (bstr ''TXT.rtf'') (bstr ''hi'')"
  have h: "hd (str ''a1'') = 97" "str ''a'' = [97]"
    by (simp_all add: str_def)
  note T1 = content_routing [where lib = demo_lib and fs = "demo_store ?c" and p = "[str ''s'']"
      and pw = None and im = False and ds = "demo_ds\<lparr>items := [(str ''a1'', str ''hi'')]\<rparr>"
      and out = "[]" and uuid = "str ''a1''" and body = "str ''hi''"]
  note T2 = content_routing [where lib = demo_lib and fs = "demo_store (bstr ''rtfd'')"
      and p = "[str ''s'']" and pw = None and im = False
      and ds = "demo_ds\<lparr>items := [(str ''a1'', str ''rtfd'')]\<rparr>"
      and out = "[]" and uuid = "str ''a1''" and body = "str ''rtfd''"]
  from T1 demo_open_container obtain d b where
    1: "read_rtf_item (drop 4 (drop 4 ?c)) = Inr (RDict d)"
    and 2: "map_of d (str ''TXT.rtf'') = Some (RBytes b)" and 3: "utf8_decode b = Some (str ''hi'')"
    by (auto simp: h demo_read [unfolded h] rtfd_container_magic simp del: drop_drop)
  have l4: "length (bstr ''rtfd'') = 4"
    by (simp add: bstr_def)
  from T2 demo_open_magic_only have 4: "utf8_decode (bstr ''rtfd'') = Some (str ''rtfd'')"
    by (simp add: h demo_read [unfolded h] l4)
  have n: "list_all2 (\<lambda>nb n. length nb < 2 ^ 32 \<and> utf8_decode nb = Some n)
             [bstr ''TXT.rtf''] [str ''TXT.rtf'']"
    using utf8_txt by (simp add: bstr_def)
  have lf: "read_rtf_item (enc_leaf (bstr ''hi'')) = Inr (RBytes (bstr ''hi''))"
    using read_leaf [of "length (bstr ''hi'')" "bstr ''hi''"]
    by (simp add: enc_leaf_def bstr_def)
  have "read_rtf_item (enc_directory [bstr ''TXT.rtf''] [enc_leaf (bstr ''hi'')] @ [])
          = Inr (RDict (zip [str ''TXT.rtf''] [RBytes (bstr ''hi'')]))"
    using read_directory_record [OF n, of "[enc_leaf (bstr ''hi'')]" "[RBytes (bstr ''hi'')]" "[]"] lf
    by (simp add: enc_directory_def enc_leaf_def bstr_def)
  then have r: "read_rtf_item (drop 4 (drop 4 ?c)) = Inr (RDict [(str ''TXT.rtf'', RBytes (bstr ''hi''))])"
    by (simp add: rtfd_container_magic del: drop_drop)
  from 1 2 3 r have "utf8_decode (bstr ''hi'') = Some (str ''hi'')"
    by simp
  with r 4 demo_open_container demo_open_magic_only show ?thesis
    by simp
qed

text \<open>
  Claim C3 does not hold of the code. In the first store the content of the one item is the
  magic marker, a version field and a record with the unrecognised tag 2; in the second it
  is a container whose directory has the single entry \<^verbatim>\<open>1.png\<close> and no \<^verbatim>\<open>TXT.rtf\<close>. In both
  the extraction returns \<^verbatim>\<open>None\<close>, \<^verbatim>\<open>open\<close> calls \<^verbatim>\<open>.decode\<close> on it, and the
  \<^verbatim>\<open>AttributeError\<close> ends the whole load. In general, whenever \<^verbatim>\<open>open\<close> returns, every
  metadata record that is not an alias has its item in the content table, and where the
  content is a composite document the decode gave a directory with a byte string under
  \<^verbatim>\<open>TXT.rtf\<close>: no returning \<^verbatim>\<open>open\<close> has omitted or emptied an item for a failed decode.
\<close>

theorem composite_failure_aborts:
  "open_store demo_lib (demo_store rtfd_bad_tag) [str ''s''] None False = Inl AttributeError
   \<and> open_store demo_lib (demo_store (rtfd_container (bstr ''1.png'') (bstr ''hi'')))
       [str ''s''] None False = Inl AttributeError
   \<and> (open_store lib fs p pw im = Inr (ds, out) \<and> item_plist ds uuid = Inr pl
      \<and> getitem pl (str ''uti'') = Inr uti
      \<and> \<not> eq_str uti (str ''com.fm.page-alias'')
      \<and> \<not> eq_str uti (str ''com.fm.file-alias'') \<longrightarrow>
      (\<exists>body content.
         map_of (items ds) uuid = Some body
       \<and> read_bytes fs (p @ [str ''pages'', [hd uuid], uuid]) = Inr content
       \<and> (length content > 4 \<and> take 4 content = bstr ''rtfd'' \<longrightarrow>
           (\<exists>d b. read_rtf_item (drop 4 (drop 4 content)) = Inr (RDict d)
              \<and> map_of d (str ''TXT.rtf'') = Some (RBytes b)
              \<and> utf8_decode b = Some body))))"
proof (intro conjI impI)
  show "open_store demo_lib (demo_store rtfd_bad_tag) [str ''s''] None False
          = Inl AttributeError"
    by (rule demo_open_bad_tag)
  show "open_store demo_lib (demo_store (rtfd_container (bstr ''1.png'') (bstr ''hi'')))
          [str ''s''] None False = Inl AttributeError"
    by (rule demo_open_no_txt)
next
  assume a: "open_store lib fs p pw im = Inr (ds, out) \<and> item_plist ds uuid = Inr pl
      \<and> getitem pl (str ''uti'') = Inr uti
      \<and> \<not> eq_str uti (str ''com.fm.page-alias'')
      \<and> \<not> eq_str uti (str ''com.fm.file-alias'')"
  then have o: "open_store lib fs p pw im = Inr (ds, out)"
    by simp
  from a obtain body where b: "map_of (items ds) uuid = Some body"
    using open_store_complete [of lib fs p pw im ds out uuid pl uti] by blast
  from open_store_items [OF o b] obtain ip v pr where ip: "item_path ds uuid = Inr ip"
    and lf: "load_file ds fs ip = Inr (v, pr)" and dc: "decode v = Inr body"
    by blast
  have "path ds = p"
    using o by (rule open_store_path)
  with item_path_nonempty [OF ip] have "ip = p @ [str ''pages'', [hd uuid], uuid]"
    by simp
  with load_file_routing [OF lf dc] obtain content where
    c: "read_bytes fs (p @ [str ''pages'', [hd uuid], uuid]) = Inr content"
    and r: "if length content > 4 \<and> take 4 content = bstr ''rtfd''
         then \<exists>d b. read_rtf_item (drop 4 (drop 4 content)) = Inr (RDict d)
                \<and> map_of d (str ''TXT.rtf'') = Some (RBytes b) \<and> utf8_decode b = Some body
         else utf8_decode content = Some body"
    by auto
  have "length content > 4 \<and> take 4 content = bstr ''rtfd'' \<longrightarrow>
           (\<exists>d b. read_rtf_item (drop 4 (drop 4 content)) = Inr (RDict d)
              \<and> map_of d (str ''TXT.rtf'') = Some (RBytes b)
              \<and> utf8_decode b = Some body)"
    using r by (auto split: if_splits)
  with b c show "\<exists>body content.
         map_of (items ds) uuid = Some body
       \<and> read_bytes fs (p @ [str ''pages'', [hd uuid], uuid]) = Inr content
       \<and> (length content > 4 \<and> take 4 content = bstr ''rtfd'' \<longrightarrow>
           (\<exists>d b. read_rtf_item (drop 4 (drop 4 content)) = Inr (RDict d)
              \<and> map_of d (str ''TXT.rtf'') = Some (RBytes b)
              \<and> utf8_decode b = Some body))"
    by blast
qed

theorem composite_failure_aborts_witness:
  "open_store demo_lib (demo_store (rtfd_container (bstr ''TXT.rtf'') (bstr ''hi'')))
     [str ''s''] None False
     = Inr (demo_ds\<lparr>items := [(str ''a1'', str ''hi'')]\<rparr>, [])
   \<and> item_plist (demo_ds\<lparr>items := [(str ''a1'', str ''hi'')]\<rparr>) (str ''a1'') = Inr note_record
   \<and> getitem note_record (str ''uti'') = Inr (PStr (str ''t''))
   \<and> map_of (items (demo_ds\<lparr>items := [(str ''a1'', str ''hi'')]\<rparr>)) (str ''a1'')
       = Some (str ''hi'')
   \<and> length (rtfd_container (bstr ''TXT.rtf'') (bstr ''hi'')) > 4"
proof -
  note T = composite_failure_aborts [where lib = demo_lib
      and fs = "demo_store (rtfd_container (bstr ''TXT.rtf'') (bstr ''hi''))"
      and p = "[str ''s'']" and pw = None and im = False
      and ds = "demo_ds\<lparr>items := [(str ''a1'', str ''hi'')]\<rparr>" and out = "[]"
      and uuid = "str ''a1''" and pl = note_record and uti = "PStr (str ''t'')"]
  have 1: "item_plist (demo_ds\<lparr>items := [(str ''a1'', str ''hi'')]\<rparr>) (str ''a1'')
             = Inr note_record"
    by (simp add: item_plist_def demo_ds_fields)
  have 2: "getitem note_record (str ''uti'') = Inr (PStr (str ''t''))"
    by (simp add: getitem_def note_record_def str_def)
  have 3: "str ''t'' \<noteq> str ''com.fm.page-alias''" "str ''t'' \<noteq> str ''com.fm.file-alias''"
    by (simp_all add: str_def)
  from T demo_open_container 1 2 3 obtain body where
    "map_of (items (demo_ds\<lparr>items := [(str ''a1'', str ''hi'')]\<rparr>)) (str ''a1'') = Some body"
    by auto
  then have "map_of (items (demo_ds\<lparr>items := [(str ''a1'', str ''hi'')]\<rparr>)) (str ''a1'')
       = Some (str ''hi'')"
    by simp
  with demo_open_container 1 2 rtfd_container_magic(1) show ?thesis
    by simp
qed

text \<open>
  Claim C10. When the \<^verbatim>\<open>storeinfo\<close> and \<^verbatim>\<open>properties\<close> files exist and parse, the store is
  not encrypted and its version is the supported one, but \<^verbatim>\<open>pages\<close> is not a directory,
  \<^verbatim>\<open>open\<close> raises \<^verbatim>\<open>FileNotFoundError\<close>, and the file name the error carries is the path
  of the \<^verbatim>\<open>properties\<close> file, not that of the \<^verbatim>\<open>pages\<close> directory.
\<close>

theorem missing_pages_names_properties:
  "path_exists fs (p @ [str ''storeinfo.plist''])
   \<and> path_exists fs (p @ [str ''properties.plist''])
   \<and> bind_err (read_bytes fs (p @ [str ''storeinfo.plist''])) (plist_loads lib) = Inr si
   \<and> getitem si (str ''isEncrypted'') = Inr enc \<and> \<not> truthy enc
   \<and> getitem si (str ''VoodooPadBundleVersion'') = Inr v \<and> eq_int v 5
   \<and> bind_err (read_bytes fs (p @ [str ''properties.plist''])) (plist_loads lib) = Inr props
   \<and> \<not> is_dir fs (p @ [str ''pages'']) \<longrightarrow>
     open_store lib fs p pw im = Inl (FileNotFoundError (p @ [str ''properties.plist'']))
     \<and> p @ [str ''properties.plist''] \<noteq> p @ [str ''pages'']"
  by (simp add: open_store_def open_checks_def Let_def new_datastore_def load_plist_def)
     (simp add: str_def)

theorem missing_pages_names_properties_witness:
  "open_store demo_lib no_pages_store [str ''s''] None False
     = Inl (FileNotFoundError [str ''s'', str ''properties.plist''])
   \<and> \<not> path_exists no_pages_store [str ''s'', str ''pages'']"
proof -
  have 1: "path_exists no_pages_store ([str ''s''] @ [str ''storeinfo.plist''])"
    "path_exists no_pages_store ([str ''s''] @ [str ''properties.plist''])"
    "\<not> is_dir no_pages_store ([str ''s''] @ [str ''pages''])"
    "\<not> path_exists no_pages_store [str ''s'', str ''pages'']"
    by (simp_all add: path_exists_def is_dir_def lookup_def no_pages_store_def str_def)
  have 2: "bind_err (read_bytes no_pages_store ([str ''s''] @ [str ''storeinfo.plist'']))
              (plist_loads demo_lib) = Inr storeinfo5"
    "bind_err (read_bytes no_pages_store ([str ''s''] @ [str ''properties.plist'']))
              (plist_loads demo_lib) = Inr props0"
    by (simp_all add: read_bytes_def lookup_def no_pages_store_def demo_loads str_def)
  have 3: "getitem storeinfo5 (str ''isEncrypted'') = Inr (PBool False)"
    "getitem storeinfo5 (str ''VoodooPadBundleVersion'') = Inr (PInt 5)"
    by (simp_all add: getitem_def storeinfo5_def str_def)
  show ?thesis
    using missing_pages_names_properties [where fs = no_pages_store and p = "[str ''s'']"
        and lib = demo_lib and si = storeinfo5 and enc = "PBool False" and v = "PInt 5"
        and props = props0 and pw = None and im = False] 1 2 3
    by simp
qed
















section \<open>Malformed metadata records\<close>

lemma returned_Inl [simp]: "(returned r = Inl e) = (r = Inl e)"
  by (cases r rule: returned.cases) simp_all



















section \<open>Opening a created store\<close>

lemma create_result:
  assumes "create lib u1 u2 fs p = Inr (ds, fs')"
  obtains b1 b2 data where "path ds = p"
    and "storeinfo ds = [(str ''isEncrypted'', PBool False), (str ''uuid'', PStr u1),
                         (str ''VoodooPadBundleVersion'', PInt 6)]"
    and "item_plists ds = [(u2, item_record lib u2 (str ''Index'')
                                 (str ''net.daringfireball.markdown'') (sha1_hexdigest data))]"
    and "plist_dumps lib (storeinfo ds) = Inr b1"
    and "lookup fs' (p @ [str ''storeinfo.plist'']) = Some (File b1)"
    and "lookup fs' (p @ [str ''properties.plist'']) = Some (File b2)"
proof -
  let ?si = "[(str ''isEncrypted'', PBool False), (str ''uuid'', PStr u1),
              (str ''VoodooPadBundleVersion'', PInt 6)]"
  define D where "D = \<lparr>path = p, encrypted = False, password = None, in_memory = False,
      storeinfo = ?si,
      properties =
        [(str ''allowPluginLinks'', PBool True),
         (str ''bdToBookmarkAliasUpgrade'', PBool True),
         (str ''createSpotlightIndex'', PBool True),
         (str ''dbVersion'', PInt 7),
         (str ''expectedPageCount'', PInt 0),
         (str ''localWebAccess'', PBool False),
         (str ''newPageUTI'', PStr (str ''net.daringfireball.markdown'')),
         (str ''skIndexVersion'', PInt 7),
         (str ''updatedFMPageToRealUTIs'', PBool True),
         (str ''updatedSpecialPages3'', PBool True),
         (str ''uuid'', PStr u1)],
      items = [], item_plists = []\<rparr>"
  have D: "path D = p" "storeinfo D = ?si" "item_plists D = []"
    by (simp_all add: D_def)
  from assms have "\<exists>r ds1 fs3 fs4 fs5 fs6 b1 b2 pr.
      add_item lib u2 D fs3 (str ''Index'') (str ''Write about Index here.'')
            (str ''net.daringfireball.markdown'') = Inr (r, ds1, fs4)
    \<and> open_wb fs4 (path ds1 @ [str ''storeinfo.plist'']) = Inr fs5
    \<and> plist_dumps lib (storeinfo ds1) = Inr b1
    \<and> open_wb (write_bytes fs5 (path ds1 @ [str ''storeinfo.plist'']) b1)
               (path ds1 @ [str ''properties.plist'']) = Inr fs6
    \<and> ds = ds1\<lparr>properties := pr\<rparr>
    \<and> fs' = write_bytes fs6 (path ds1 @ [str ''properties.plist'']) b2"
    unfolding D_def
    by (simp add: create_def Let_def bind_err_Inr new_datastore_def split_paired_Ex) blast
  then obtain r ds1 fs3 fs4 fs5 fs6 b1 b2 pr where
    a: "add_item lib u2 D fs3 (str ''Index'') (str ''Write about Index here.'')
            (str ''net.daringfireball.markdown'') = Inr (r, ds1, fs4)"
    and o1: "open_wb fs4 (path ds1 @ [str ''storeinfo.plist'']) = Inr fs5"
    and d1: "plist_dumps lib (storeinfo ds1) = Inr b1"
    and o2: "open_wb (write_bytes fs5 (path ds1 @ [str ''storeinfo.plist'']) b1)
               (path ds1 @ [str ''properties.plist'']) = Inr fs6"
    and ds: "ds = ds1\<lparr>properties := pr\<rparr>"
    and fs': "fs' = write_bytes fs6 (path ds1 @ [str ''properties.plist'']) b2"
    by blast
  from add_item_result [OF a] obtain data where
    ds1: "ds1 = D\<lparr>items := AList.update u2 (str ''Write about Index here.'') (items D),
                  item_plists := AList.update u2
                    (item_record lib u2 (str ''Index'') (str ''net.daringfireball.markdown'')
                       (sha1_hexdigest data)) (item_plists D)\<rparr>"
    by blast
  have 1: "path ds = p"
    using ds ds1 D by simp
  have 2: "storeinfo ds = ?si"
    using ds ds1 D by simp
  have 3: "item_plists ds = [(u2, item_record lib u2 (str ''Index'')
                                 (str ''net.daringfireball.markdown'') (sha1_hexdigest data))]"
    using ds ds1 D by simp
  have 4: "plist_dumps lib (storeinfo ds) = Inr b1"
    using d1 ds by simp
  have p1: "path ds1 = p"
    using ds1 D by simp
  have ne: "p @ [str ''storeinfo.plist''] \<noteq> p @ [str ''properties.plist'']"
    by (simp add: str_def)
  have l5: "lookup fs5 q = (if q = p @ [str ''storeinfo.plist''] then Some (File [])
                            else lookup fs4 q)" for q
    using open_wb_lookup [OF o1 [unfolded p1]] by simp
  have l6: "lookup fs6 q = (if q = p @ [str ''properties.plist''] then Some (File [])
              else lookup (write_bytes fs5 (p @ [str ''storeinfo.plist'']) b1) q)" for q
    using open_wb_lookup [OF o2 [unfolded p1]] by simp
  have 5: "lookup fs' (p @ [str ''storeinfo.plist'']) = Some (File b1)"
    using ne by (simp add: fs' p1 write_bytes_lookup l6)
  have 6: "lookup fs' (p @ [str ''properties.plist'']) = Some (File b2)"
    by (simp add: fs' p1 write_bytes_lookup)
  from 1 2 3 4 5 6 show ?thesis
    by (rule that)
qed

lemma validate_single:
  "item_plists ds = [(u, item_record lib u name format h)] \<Longrightarrow> validate ds = Inr (True, [])"
  by (simp add: validate_def item_uuids_def item_plist_def item_record_def getitem_def)

text \<open>
  Claim C1. The store that \<^verbatim>\<open>create\<close> writes cannot be opened: \<^verbatim>\<open>create\<close> stores the format
  version 6 in \<^verbatim>\<open>storeinfo.plist\<close> and \<^verbatim>\<open>open\<close> accepts the version 5 alone. For every
  returning call of \<^verbatim>\<open>create\<close>, if the library reads back from the bytes it has written for
  the store information a dictionary with the same entries, then \<^verbatim>\<open>open\<close> on the path of the
  store raises \<^verbatim>\<open>Exception('Unsupported')\<close>, whatever the password and the \<^verbatim>\<open>in_memory\<close>
  flag. The other half of the claim holds: \<^verbatim>\<open>validate\<close> on the returned store returns true
  and prints no warning.
\<close>

theorem created_store_unsupported:
  "create lib uuid4_store uuid4_item fs p = Inr (ds, fs')
   \<and> (\<forall>b. plist_dumps lib (storeinfo ds) = Inr b
          \<longrightarrow> (\<exists>si. plist_loads lib b = Inr si \<and> map_of si = map_of (storeinfo ds)))
   \<longrightarrow>
     getitem (storeinfo ds) (str ''VoodooPadBundleVersion'') = Inr (PInt 6)
     \<and> open_store lib fs' (path ds) pw im = Inl (Exception (str ''Unsupported''))
     \<and> validate ds = Inr (True, [])"
proof (intro impI, elim conjE)
  assume c: "create lib uuid4_store uuid4_item fs p = Inr (ds, fs')"
    and rt: "\<forall>b. plist_dumps lib (storeinfo ds) = Inr b
          \<longrightarrow> (\<exists>si. plist_loads lib b = Inr si \<and> map_of si = map_of (storeinfo ds))"
  from c obtain b1 b2 data where pth: "path ds = p"
    and si: "storeinfo ds = [(str ''isEncrypted'', PBool False), (str ''uuid'', PStr uuid4_store),
                         (str ''VoodooPadBundleVersion'', PInt 6)]"
    and ip: "item_plists ds = [(uuid4_item, item_record lib uuid4_item (str ''Index'')
                                 (str ''net.daringfireball.markdown'') (sha1_hexdigest data))]"
    and d: "plist_dumps lib (storeinfo ds) = Inr b1"
    and l1: "lookup fs' (p @ [str ''storeinfo.plist'']) = Some (File b1)"
    and l2: "lookup fs' (p @ [str ''properties.plist'']) = Some (File b2)"
    by (rule create_result)
  from rt d obtain si' where ld: "plist_loads lib b1 = Inr si'"
    and m: "map_of si' = map_of (storeinfo ds)"
    by blast
  have g1: "getitem si' (str ''isEncrypted'') = Inr (PBool False)"
    by (simp add: getitem_def m si str_def)
  have g2: "getitem si' (str ''VoodooPadBundleVersion'') = Inr (PInt 6)"
    by (simp add: getitem_def m si str_def)
  have g3: "getitem (storeinfo ds) (str ''VoodooPadBundleVersion'') = Inr (PInt 6)"
    by (simp add: getitem_def si str_def)
  have "open_checks lib fs' p pw im = Inl (Exception (str ''Unsupported''))"
    by (simp add: open_checks_def Let_def new_datastore_def path_exists_def read_bytes_def
          l1 l2 ld g1 g2)
  then have o: "open_store lib fs' (path ds) pw im = Inl (Exception (str ''Unsupported''))"
    by (simp add: open_store_def pth)
  have v: "validate ds = Inr (True, [])"
    using ip by (rule validate_single)
  from g3 o v show "getitem (storeinfo ds) (str ''VoodooPadBundleVersion'') = Inr (PInt 6)
     \<and> open_store lib fs' (path ds) pw im = Inl (Exception (str ''Unsupported''))
     \<and> validate ds = Inr (True, [])"
    by simp
qed

lemma upt_16: "[0..<16] = [0, 1, 2, 3, 4, 5, 6, 7, 8, 9, 10, 11, 12, 13, 14, 15]"
  by code_simp

lemma create_lib_dumps:
  "plist_dumps create_lib storeinfo6 = Inr storeinfo6_xml"
  "plist_dumps create_lib created_props = Inr created_props_xml"
  "plist_dumps create_lib index_record = Inr index_xml"
  by (simp_all add: create_lib_def table_lib_def storeinfo6_def created_props_def
        index_record_def str_def)

lemma create_lib_loads: "plist_loads create_lib storeinfo6_xml = Inr storeinfo6"
  by (simp add: create_lib_def table_lib_def)

lemma create_run:
  "create create_lib (str ''s0'') (str ''a1'') [] [str ''s''] = Inr (created_ds, created_fs)"
  by (simp add: create_def upt_16 hex_digit_def os_mkdir_def
        add_item_def Let_def sha1_hash_def utf8_char_def save_plist_def save_file_def
        os_makedirs_existing open_wb_def write_bytes_def is_dir_def path_exists_def lookup_def
        create_lib_def table_lib_def ascii_lower_def index_record_def storeinfo6_def
        created_props_def new_datastore_def created_ds_def created_fs_def str_def bstr_def)

theorem created_store_unsupported_witness:
  "create create_lib (str ''s0'') (str ''a1'') [] [str ''s''] = Inr (created_ds, created_fs)
   \<and> plist_dumps create_lib (storeinfo created_ds) = Inr storeinfo6_xml
   \<and> plist_loads create_lib storeinfo6_xml = Inr (storeinfo created_ds)
   \<and> getitem (storeinfo created_ds) (str ''VoodooPadBundleVersion'') = Inr (PInt 6)
   \<and> open_store create_lib created_fs [str ''s''] None False
       = Inl (Exception (str ''Unsupported''))
   \<and> validate created_ds = Inr (True, [])"
proof -
  have s: "storeinfo created_ds = storeinfo6" and p: "path created_ds = [str ''s'']"
    by (simp_all add: created_ds_def new_datastore_def)
  show ?thesis
    using created_store_unsupported [where lib = create_lib and uuid4_store = "str ''s0''"
        and uuid4_item = "str ''a1''" and fs = "[]" and p = "[str ''s'']" and ds = created_ds
        and fs' = created_fs and pw = None and im = False]
      create_run create_lib_dumps(1) create_lib_loads
    by (simp add: s p)
qed

end
